theory Spec2Isabelle
  imports Main
begin

section \<open>Server: the session protocol handler\<close>

text \<open>
  The relay server is plain JavaScript. A frame is the object literal handed to
  \<open>JSON.stringify\<close>, so frames and parsed requests are JSON values; an object keeps its
  properties as an association list in the order of the literal. The numeric value of a
  JSON number is never read by the code.
\<close>

datatype json =
  JNull | JBool bool | JNum int | JStr string | JArr "json list" | JObj "(string \<times> json) list"

datatype exn = SyntaxError | TypeError | UpstreamError

text \<open>
  Reading the property \<open>type\<close> or \<open>content\<close> of a parsed value: \<open>null\<close> raises a
  TypeError, an object yields the property or \<open>undefined\<close> (\<open>None\<close>), and a boolean, number,
  string or array has neither property.
\<close>

fun get_prop :: "json \<Rightarrow> string \<Rightarrow> exn + json option" where
  "get_prop JNull k = Inl TypeError"
| "get_prop (JObj kvs) k = Inr (map_of kvs k)"
| "get_prop (JBool b) k = Inr None"
| "get_prop (JNum n) k = Inr None"
| "get_prop (JStr s) k = Inr None"
| "get_prop (JArr xs) k = Inr None"

text \<open>
  The server side of one connection: the \<open>readyState\<close> of the socket (1 is OPEN) and the
  frames passed to \<open>ws.send\<close> so far, oldest first. The state of the socket is taken as
  fixed while one inbound message is handled. Console output and the delays of \<open>sleep\<close>
  do not influence the frames and are left out.
\<close>

record wsock =
  readyState :: nat
  sent :: "json list"

definition sendSafe :: "wsock \<Rightarrow> json \<Rightarrow> wsock \<times> bool" where
  "sendSafe ws data =
     (if readyState ws = 1 then (ws\<lparr>sent := sent ws @ [data]\<rparr>, True) else (ws, False))"

subsection \<open>The local response generator\<close>

text \<open>
  Strings are byte lists. \<open>toLowerCase\<close> maps the ASCII capitals and leaves every other
  byte as it is; on ASCII text this is what JavaScript does. JavaScript also maps letters
  outside ASCII, so for such a text the keyword tests below may pick another reply than
  the server does. Which reply is picked is stated below for ASCII texts only; what is
  stated for every text holds of any reply.
\<close>

definition lower_char :: "char \<Rightarrow> char" where
  "lower_char c =
     (let n = (of_char c :: nat) in if 65 \<le> n \<and> n \<le> 90 then char_of (n + 32) else c)"

definition toLowerCase :: "string \<Rightarrow> string" where
  "toLowerCase s = map lower_char s"

fun startsWith :: "string \<Rightarrow> string \<Rightarrow> bool" where
  "startsWith s [] = True"
| "startsWith [] (p # ps) = False"
| "startsWith (c # cs) (p # ps) = (c = p \<and> startsWith cs ps)"

fun str_includes :: "string \<Rightarrow> string \<Rightarrow> bool" where
  "str_includes [] p = (p = [])"
| "str_includes (c # cs) p = (startsWith (c # cs) p \<or> str_includes cs p)"

text \<open>\<open>response.split(' ')\<close>: the pieces between single spaces, empty pieces included.\<close>

fun split_space :: "string \<Rightarrow> string list" where
  "split_space [] = [[]]"
| "split_space (c # cs) =
     (if c = CHR '' '' then [] # split_space cs
      else (case split_space cs of [] \<Rightarrow> [[c]] | w # ws \<Rightarrow> (c # w) # ws))"

definition greeting :: string where
  "greeting = ''Hello! How can I help you today? I am your AI assistant and ready to answer any questions you might have.''"

definition mock_text :: "string \<Rightarrow> string" where
  "mock_text message =
     (let text = toLowerCase message in
      if str_includes text ''hi'' \<or> str_includes text ''hello'' then greeting
      else if str_includes text ''how are you'' then
        ''I'm doing great, thank you for asking! As an AI, I'm always ready and eager to help. What can I do for you today?''
      else if str_includes text ''weather'' then
        ''I don't have access to real-time weather data, but I'd recommend checking a weather service like weather.com or your phone's weather app for accurate forecasts.''
      else if str_includes text ''help'' then
        ''I'd be happy to help! You can ask me questions about various topics, get explanations, or have a conversation. What would you like to know?''
      else if str_includes text ''thank'' then
        ''You're welcome! Is there anything else I can help you with?''
      else if str_includes text ''name'' then
        ''I'm your friendly AI assistant! I'm here to help you with questions and have conversations.''
      else if str_includes text ''what can you do'' then
        ''I can help you with a variety of tasks! I can answer questions, have conversations, provide explanations, and more. Just ask me anything!''
      else
        ''Thanks for your message: \"'' @ message @
        ''\". I'm currently running in demo mode. To get real AI responses, make sure your Gemini API key from https://aistudio.google.com/app/apikey is set in the .env file!'')"

text \<open>
  \<open>getMockResponse\<close> receives \<open>message.content\<close> as parsed. Only a string has
  \<open>toLowerCase\<close>; \<open>undefined\<close> (\<open>None\<close>) and every other value raise a TypeError.
\<close>

fun getMockResponse :: "json option \<Rightarrow> exn + string" where
  "getMockResponse (Some (JStr message)) = Inr (mock_text message)"
| "getMockResponse other = Inl TypeError"

subsection \<open>Frames\<close>

definition thinking_frame :: json where
  "thinking_frame = JObj [(''type'', JStr ''thinking''), (''content'', JStr ''Analyzing your question...'')]"

definition thinking_done_frame :: json where
  "thinking_done_frame = JObj [(''type'', JStr ''thinking_done'')]"

definition stream_frame :: "string \<Rightarrow> json" where
  "stream_frame text = JObj [(''type'', JStr ''stream''), (''content'', JStr text)]"

definition done_frame :: "string \<Rightarrow> json" where
  "done_frame text = JObj [(''type'', JStr ''done''), (''content'', JStr text)]"

definition error_frame :: json where
  "error_frame = JObj [(''type'', JStr ''error''), (''content'', JStr ''Failed to process message'')]"

definition connected_frame :: json where
  "connected_frame = JObj [(''type'', JStr ''connected''), (''content'', JStr ''Connected to chat server'')]"

text \<open>Observers of a sent frame, used to state the properties.\<close>

definition frame_type :: "json \<Rightarrow> string" where
  "frame_type f = (case get_prop f ''type'' of Inr (Some (JStr t)) \<Rightarrow> t | _ \<Rightarrow> [])"

definition frame_content :: "json \<Rightarrow> string option" where
  "frame_content f = (case get_prop f ''content'' of Inr (Some (JStr t)) \<Rightarrow> Some t | _ \<Rightarrow> None)"

definition has_content :: "json \<Rightarrow> bool" where
  "has_content f = (case get_prop f ''content'' of Inr (Some v) \<Rightarrow> True | _ \<Rightarrow> False)"

definition content_text :: "json \<Rightarrow> string" where
  "content_text f = (case frame_content f of Some t \<Rightarrow> t | None \<Rightarrow> [])"

definition contents_of :: "string \<Rightarrow> json list \<Rightarrow> string list" where
  "contents_of t fs = map content_text (filter (\<lambda>f. frame_type f = t) fs)"

subsection \<open>The chat turn\<close>

text \<open>
  The upstream service is outside the repository. One call of
  \<open>model.generateContentStream\<close> either raises (\<open>Rejected\<close>) or yields a finite sequence
  of chunks; reading a chunk yields its text or raises (\<open>Fails\<close>: the iterator or
  \<open>chunk.text()\<close> throws).
\<close>

datatype chunk = Text string | Fails

datatype gen = Rejected | Stream "chunk list"

record globals =
  useAI :: bool
  model :: "(json option \<Rightarrow> gen) option"

fun send_words :: "wsock \<Rightarrow> string list \<Rightarrow> wsock" where
  "send_words ws [] = ws"
| "send_words ws (word # words) =
     send_words (fst (sendSafe ws (stream_frame (word @ '' '')))) words"

definition sendMockResponse :: "wsock \<Rightarrow> json option \<Rightarrow> wsock \<times> (exn + unit)" where
  "sendMockResponse ws userMessage =
     (let ws1 = fst (sendSafe ws thinking_done_frame) in
      case getMockResponse userMessage of
        Inl e \<Rightarrow> (ws1, Inl e)
      | Inr response \<Rightarrow>
          (let ws2 = send_words ws1 (split_space response)
           in (fst (sendSafe ws2 (done_frame response)), Inr ())))"

text \<open>
  The \<open>for await\<close> loop of \<open>streamGeminiResponse\<close>: the socket, the text accumulated in
  \<open>fullResponse\<close>, the chunks still to come. An empty text is skipped by \<open>if (text)\<close>.
\<close>

fun stream_chunks :: "wsock \<Rightarrow> string \<Rightarrow> chunk list \<Rightarrow> wsock \<times> (exn + string)" where
  "stream_chunks ws fullResponse [] = (ws, Inr fullResponse)"
| "stream_chunks ws fullResponse (Fails # cs) = (ws, Inl UpstreamError)"
| "stream_chunks ws fullResponse (Text text # cs) =
     (if text \<noteq> [] then
        stream_chunks (fst (sendSafe ws (stream_frame text))) (fullResponse @ text) cs
      else stream_chunks ws fullResponse cs)"

definition streamGeminiResponse ::
  "(json option \<Rightarrow> gen) \<Rightarrow> wsock \<Rightarrow> json option \<Rightarrow> wsock \<times> (exn + unit)" where
  "streamGeminiResponse m ws userMessage =
     (let ws1 = fst (sendSafe ws thinking_done_frame) in
      case m userMessage of
        Rejected \<Rightarrow> sendMockResponse ws1 userMessage
      | Stream cs \<Rightarrow>
          (case stream_chunks ws1 [] cs of
             (ws2, Inl e) \<Rightarrow> sendMockResponse ws2 userMessage
           | (ws2, Inr fullResponse) \<Rightarrow> (fst (sendSafe ws2 (done_frame fullResponse)), Inr ())))"

definition handleChatMessage :: "globals \<Rightarrow> wsock \<Rightarrow> json option \<Rightarrow> wsock \<times> (exn + unit)" where
  "handleChatMessage g ws userMessage =
     (let ws1 = fst (sendSafe ws thinking_frame) in
      case (useAI g, model g) of
        (True, Some m) \<Rightarrow> streamGeminiResponse m ws1 userMessage
      | _ \<Rightarrow> sendMockResponse ws1 userMessage)"

text \<open>
  The \<open>message\<close> listener of a connection. \<open>JSON_parse\<close> stands for
  \<open>JSON.parse(data.toString())\<close>, \<open>None\<close> when it throws. Whatever is thrown inside the
  \<open>try\<close> is answered with the error frame.
\<close>

definition on_message_body ::
  "(string \<Rightarrow> json option) \<Rightarrow> globals \<Rightarrow> wsock \<Rightarrow> string \<Rightarrow> wsock \<times> (exn + unit)" where
  "on_message_body JSON_parse g ws data =
     (case JSON_parse data of
        None \<Rightarrow> (ws, Inl SyntaxError)
      | Some message \<Rightarrow>
          (case get_prop message ''type'' of
             Inl e \<Rightarrow> (ws, Inl e)
           | Inr t \<Rightarrow>
               if t = Some (JStr ''chat'') then
                 (case get_prop message ''content'' of
                    Inl e \<Rightarrow> (ws, Inl e)
                  | Inr c \<Rightarrow> handleChatMessage g ws c)
               else (ws, Inr ())))"

definition on_message :: "(string \<Rightarrow> json option) \<Rightarrow> globals \<Rightarrow> wsock \<Rightarrow> string \<Rightarrow> wsock" where
  "on_message JSON_parse g ws data =
     (case on_message_body JSON_parse g ws data of
        (ws', Inl e) \<Rightarrow> fst (sendSafe ws' error_frame)
      | (ws', Inr u) \<Rightarrow> ws')"

definition on_connection :: "wsock \<Rightarrow> wsock" where
  "on_connection ws = fst (sendSafe ws connected_frame)"

subsection \<open>Notions used to state the properties of a turn\<close>

text \<open>
  The frames of one complete run of \<open>sendMockResponse\<close> on an open socket, for the
  response \<open>r\<close> of the generator and for the request \<open>text\<close>.
\<close>

definition fallback_frames :: "string \<Rightarrow> json list" where
  "fallback_frames r =
     thinking_done_frame # map (\<lambda>w. stream_frame (w @ '' '')) (split_space r) @ [done_frame r]"

definition mock_frames :: "string \<Rightarrow> json list" where
  "mock_frames text =
     thinking_done_frame # map (\<lambda>w. stream_frame (w @ '' '')) (split_space (mock_text text))
       @ [done_frame (mock_text text)]"

text \<open>
  The upstream service is unavailable (\<open>useAI && model\<close> is false), or its call raises,
  or its stream raises before it ends.
\<close>

definition upstream_down :: "globals \<Rightarrow> json option \<Rightarrow> bool" where
  "upstream_down g c =
     (case (useAI g, model g) of
        (True, Some m) \<Rightarrow> (case m c of Rejected \<Rightarrow> True | Stream cs \<Rightarrow> Fails \<in> set cs)
      | _ \<Rightarrow> True)"

definition turn_types :: "string set" where
  "turn_types = {''thinking'', ''thinking_done'', ''stream'', ''done''}"

text \<open>The texts the upstream loop forwards: the non-empty ones before the first failure.\<close>

fun chunk_texts :: "chunk list \<Rightarrow> string list" where
  "chunk_texts [] = []"
| "chunk_texts (Fails # cs) = []"
| "chunk_texts (Text t # cs) = (if t \<noteq> [] then t # chunk_texts cs else chunk_texts cs)"

text \<open>Concrete configurations: no upstream service; an upstream that fails after one chunk.\<close>

definition no_upstream :: globals where
  "no_upstream = \<lparr>useAI = False, model = None\<rparr>"

definition failing_upstream :: globals where
  "failing_upstream = \<lparr>useAI = True, model = Some (\<lambda>c. Stream [Text ''Hi'', Fails])\<rparr>"

definition open_socket :: wsock where
  "open_socket = \<lparr>readyState = 1, sent = []\<rparr>"

definition chat_thank :: json where
  "chat_thank = JObj [(''type'', JStr ''chat''), (''content'', JStr ''thank'')]"

text \<open>A chat request without content, and a decoder that knows the two requests.\<close>

definition chat_no_content :: json where
  "chat_no_content = JObj [(''type'', JStr ''chat'')]"

definition parse_chat :: "string \<Rightarrow> json option" where
  "parse_chat data = (if data = ''{\"type\":\"chat\"}'' then Some chat_no_content else Some chat_thank)"

text \<open>The content of a request is a string.\<close>

fun is_string :: "json option \<Rightarrow> bool" where
  "is_string (Some (JStr text)) = True"
| "is_string other = False"

section \<open>Client: the chat component\<close>

text \<open>
  A frame as the client hook hands it to the message handler: the TypeScript interface
  \<open>WebSocketMessage\<close>. The union type of \<open>type\<close> is erased at run time, so the field is
  a string and any value can arrive.
\<close>

record WebSocketMessage =
  ws_type :: string
  ws_content :: string

datatype MessageType = User | Assistant

record Message =
  msg_id :: string
  msg_type :: MessageType
  content :: string
  timestamp :: nat
  isStreaming :: "bool option"
  displayContent :: "string option"

text \<open>
  The handler never gives \<open>setMessages\<close> a list, always a function of the previous list.
  React puts such an updater in a queue and calls the queued updaters, in order, when it
  next renders the component. Two of the three updaters of the handler read
  \<open>currentAssistantIdRef.current\<close> in their body, that is, when they are called.
\<close>

datatype updater = Append Message | AppendFragment string | StopStreaming

text \<open>
  The state the handler reads and writes: the message list as last rendered, the waiting
  flag, the text of the thinking indicator, the ref that names the assistant message in
  progress, and the updaters given to \<open>setMessages\<close> since the last render, oldest first.
  \<open>setThinkingText\<close> and \<open>setIsWaiting\<close> are given plain values, which do not depend on
  when React renders; they are shown as set at the call. The scroll position is not part
  of the model.
\<close>

record chat =
  messages :: "Message list"
  isWaiting :: bool
  thinkingText :: "string option"
  currentAssistantIdRef :: "string option"
  updaters :: "updater list"

text \<open>Decimal digits of a number, for the ids built from \<open>Date.now()\<close>.\<close>

fun show_nat :: "nat \<Rightarrow> string" where
  "show_nat n =
     (if n < 10 then [char_of (48 + n)] else show_nat (n div 10) @ [char_of (48 + n mod 10)])"

declare show_nat.simps [simp del]

text \<open>\<open>!currentAssistantIdRef.current\<close>: the ref is \<open>null\<close> or the empty string.\<close>

definition falsy :: "string option \<Rightarrow> bool" where
  "falsy r = (case r of None \<Rightarrow> True | Some s \<Rightarrow> s = [])"

text \<open>\<open>x || ''\<close> for an optional string.\<close>

definition or_empty :: "string option \<Rightarrow> string" where
  "or_empty r = (case r of None \<Rightarrow> [] | Some s \<Rightarrow> s)"

definition append_fragment :: "string option \<Rightarrow> string \<Rightarrow> Message \<Rightarrow> Message" where
  "append_fragment cur fragment msg =
     (if Some (msg_id msg) = cur then
        msg\<lparr>displayContent := Some (or_empty (displayContent msg) @ fragment),
            content := content msg @ fragment\<rparr>
      else msg)"

definition stop_streaming :: "string option \<Rightarrow> Message \<Rightarrow> Message" where
  "stop_streaming cur msg = (if Some (msg_id msg) = cur then msg\<lparr>isStreaming := Some False\<rparr> else msg)"

text \<open>
  Calling an updater on the previous list; \<open>cur\<close> is the value of the ref at that moment.
\<close>

fun run_updater :: "string option \<Rightarrow> Message list \<Rightarrow> updater \<Rightarrow> Message list" where
  "run_updater cur prev (Append msg) = prev @ [msg]"
| "run_updater cur prev (AppendFragment fragment) = map (append_fragment cur fragment) prev"
| "run_updater cur prev StopStreaming = map (stop_streaming cur) prev"

definition setMessages :: "updater \<Rightarrow> chat \<Rightarrow> chat" where
  "setMessages u st = st\<lparr>updaters := updaters st @ [u]\<rparr>"

text \<open>React renders the component: the queued updaters are called in order.\<close>

definition render :: "chat \<Rightarrow> chat" where
  "render st =
     st\<lparr>messages := foldl (run_updater (currentAssistantIdRef st)) (messages st) (updaters st),
        updaters := []\<rparr>"

text \<open>
  \<open>handleWebSocketMessage\<close>, one branch for each \<open>case\<close> of the \<open>switch\<close>; \<open>now\<close> is the
  value of the clock read by \<open>Date.now()\<close> and \<open>new Date()\<close>.
\<close>

definition handleWebSocketMessage :: "nat \<Rightarrow> WebSocketMessage \<Rightarrow> chat \<Rightarrow> chat" where
  "handleWebSocketMessage now message st =
     (if ws_type message = ''connected'' then st
      else if ws_type message = ''thinking'' then st\<lparr>thinkingText := Some (ws_content message)\<rparr>
      else if ws_type message = ''thinking_done'' then st
      else if ws_type message = ''stream'' then
        (let st1 = st\<lparr>thinkingText := None\<rparr> in
         if falsy (currentAssistantIdRef st1) then
           (let assistantId = ''assistant-'' @ show_nat now in
            setMessages
              (Append \<lparr>msg_id = assistantId, msg_type = Assistant, content = ws_content message,
                       timestamp = now, isStreaming = Some True,
                       displayContent = Some (ws_content message)\<rparr>)
              (st1\<lparr>currentAssistantIdRef := Some assistantId\<rparr>))
         else setMessages (AppendFragment (ws_content message)) st1)
      else if ws_type message = ''done'' then
        (let st1 =
           (if \<not> falsy (currentAssistantIdRef st) then
              (setMessages StopStreaming st)\<lparr>currentAssistantIdRef := None\<rparr>
            else st)
         in st1\<lparr>thinkingText := None, isWaiting := False\<rparr>)
      else if ws_type message = ''error'' then
        (setMessages
           (Append \<lparr>msg_id = ''error-'' @ show_nat now, msg_type = Assistant,
                    content = (if ws_content message = [] then ''Something went wrong. Please try again.''
                               else ws_content message),
                    timestamp = now, isStreaming = None, displayContent = None\<rparr>)
           st)
          \<lparr>thinkingText := None, currentAssistantIdRef := None, isWaiting := False\<rparr>
      else st)"

text \<open>The state of the component when it is first rendered, at clock value \<open>t\<close>.\<close>

definition initial_chat :: "nat \<Rightarrow> chat" where
  "initial_chat t =
     \<lparr>messages =
        [\<lparr>msg_id = ''welcome'', msg_type = Assistant,
          content = [CHR 0xF0, CHR 0x9F, CHR 0x91, CHR 0x8B] @ '' Hi! How can we help?'',
          timestamp = t, isStreaming = None, displayContent = None\<rparr>],
      isWaiting = False, thinkingText = None, currentAssistantIdRef = None, updaters = []\<rparr>"

text \<open>
  What happens to the component, in order: a frame arrives and is handled, with the clock
  value of its arrival, or React renders.
\<close>

datatype tick = Frame nat WebSocketMessage | Render

fun chat_step :: "tick \<Rightarrow> chat \<Rightarrow> chat" where
  "chat_step (Frame now message) st = handleWebSocketMessage now message st"
| "chat_step Render st = render st"

fun chat_run :: "tick list \<Rightarrow> chat \<Rightarrow> chat" where
  "chat_run [] st = st"
| "chat_run (e # es) st = chat_run es (chat_step e st)"

definition stream_msg :: "string \<Rightarrow> WebSocketMessage" where
  "stream_msg fragment = \<lparr>ws_type = ''stream'', ws_content = fragment\<rparr>"

definition done_msg :: "string \<Rightarrow> WebSocketMessage" where
  "done_msg text = \<lparr>ws_type = ''done'', ws_content = text\<rparr>"

text \<open>
  Further \<open>stream\<close> frames with renders in between, in any order: \<open>Some (t, x)\<close> is the
  fragment \<open>x\<close> arriving at \<open>t\<close>, \<open>None\<close> a render; and the fragments among them, joined.
\<close>

fun stream_tick :: "(nat \<times> string) option \<Rightarrow> tick" where
  "stream_tick None = Render"
| "stream_tick (Some (t, x)) = Frame t (stream_msg x)"

fun fragment_of :: "(nat \<times> string) option \<Rightarrow> string" where
  "fragment_of None = []"
| "fragment_of (Some (t, x)) = x"

definition joined :: "(nat \<times> string) option list \<Rightarrow> string" where
  "joined mid = concat (map fragment_of mid)"

text \<open>The example of the specification, each frame in a task of its own.\<close>

definition hello_world :: "tick list" where
  "hello_world =
     [Frame 1 (stream_msg ''Hello''), Render, Frame 2 (stream_msg ''world''), Render,
      Frame 3 (done_msg ''Hello world''), Render]"

text \<open>The same frames when the last fragment and \<open>done\<close> are handled before React renders.\<close>

definition hello_world_batched :: "tick list" where
  "hello_world_batched =
     [Frame 1 (stream_msg ''Hello''), Render, Frame 2 (stream_msg ''world''),
      Frame 3 (done_msg ''Hello world''), Render]"

definition known_types :: "string set" where
  "known_types = {''connected'', ''thinking'', ''thinking_done'', ''stream'', ''done'', ''error''}"

text \<open>
  The assistant message \<open>aid\<close> is in progress: the ref names it and it is the last message
  of the list, streaming, with the text \<open>acc\<close> received so far.
\<close>

definition in_progress :: "string \<Rightarrow> string \<Rightarrow> nat \<Rightarrow> chat \<Rightarrow> bool" where
  "in_progress aid acc t0 st =
     (currentAssistantIdRef st = Some aid \<and> aid \<noteq> [] \<and> messages st \<noteq> [] \<and>
      last (messages st) =
        \<lparr>msg_id = aid, msg_type = Assistant, content = acc, timestamp = t0,
         isStreaming = Some True, displayContent = Some acc\<rparr>)"

section \<open>Client: the connection manager\<close>

text \<open>
  The hook \<open>useWebSocket\<close>. Its refs and its two state variables are the fields of a
  record, together with what the browser holds for it: every \<open>WebSocket\<close> it has
  constructed, by index of construction, with its \<open>readyState\<close>, and every timer it has
  set, by index, with a flag that is true while the timer is pending. The delay of a timer
  is not modelled: a pending timer may fire at any later moment. A ref holds \<open>null\<close>
  (\<open>None\<close>) or a handle, and a handle is never falsy. \<open>calls\<close> lists the invocations of
  the caller's callbacks and \<open>console\<close> the lines written to the console, both oldest
  first.
\<close>

datatype ReadyState = CONNECTING | OPEN | CLOSING | CLOSED

datatype callback = OnConnect | OnDisconnect | OnMessage WebSocketMessage

record hook =
  sockets :: "ReadyState list"
  wsRef :: "nat option"
  reconnectAttemptsRef :: nat
  reconnectTimeoutRef :: "nat option"
  timers :: "bool list"
  mountedRef :: bool
  isConnected :: bool
  isConnecting :: bool
  calls :: "callback list"
  console :: "string list"

text \<open>
  The options of the hook that its logic reads: the retry limit, a count, and whether the
  \<open>WebSocket\<close> constructor accepts the configured url (it throws otherwise).
\<close>

record options =
  maxReconnectAttempts :: nat
  url_ok :: bool

definition initial_hook :: hook where
  "initial_hook =
     \<lparr>sockets = [], wsRef = None, reconnectAttemptsRef = 0, reconnectTimeoutRef = None,
      timers = [], mountedRef = True, isConnected = False, isConnecting = False,
      calls = [], console = []\<rparr>"

text \<open>\<open>wsRef.current?.readyState\<close>\<close>

definition ref_readyState :: "hook \<Rightarrow> ReadyState option" where
  "ref_readyState s =
     (case wsRef s of
        None \<Rightarrow> None
      | Some i \<Rightarrow> if i < length (sockets s) then Some (sockets s ! i) else None)"

definition log :: "string \<Rightarrow> hook \<Rightarrow> hook" where
  "log line s = s\<lparr>console := console s @ [line]\<rparr>"

definition connect :: "options \<Rightarrow> hook \<Rightarrow> hook" where
  "connect opts s =
     (if ref_readyState s = Some OPEN then log ''Already connected'' s
      else if ref_readyState s = Some CONNECTING then log ''Already connecting'' s
      else
        (let s1 = log ''Creating WebSocket connection to:'' (s\<lparr>isConnecting := True\<rparr>) in
         if url_ok opts then
           s1\<lparr>sockets := sockets s1 @ [CONNECTING], wsRef := Some (length (sockets s1))\<rparr>
         else (log ''Failed to create WebSocket:'' s1)\<lparr>isConnecting := False\<rparr>))"

definition ws_onopen :: "hook \<Rightarrow> hook" where
  "ws_onopen s =
     (if \<not> mountedRef s then s
      else (log ''WebSocket connected'' s)
             \<lparr>isConnected := True, isConnecting := False, reconnectAttemptsRef := 0,
              calls := calls s @ [OnConnect]\<rparr>)"

text \<open>
  \<open>JSON_parse\<close> stands for \<open>JSON.parse(event.data)\<close> read at the declared type, \<open>None\<close>
  when it throws.
\<close>

definition ws_onmessage :: "(string \<Rightarrow> WebSocketMessage option) \<Rightarrow> hook \<Rightarrow> string \<Rightarrow> hook" where
  "ws_onmessage JSON_parse s data =
     (if \<not> mountedRef s then s
      else case JSON_parse data of
             Some message \<Rightarrow> s\<lparr>calls := calls s @ [OnMessage message]\<rparr>
           | None \<Rightarrow> log ''Failed to parse WebSocket message:'' s)"

definition ws_onclose :: "options \<Rightarrow> hook \<Rightarrow> hook" where
  "ws_onclose opts s =
     (if \<not> mountedRef s then s
      else
        (let s1 = (log ''WebSocket disconnected'' s)
                    \<lparr>isConnected := False, isConnecting := False, wsRef := None,
                     calls := calls s @ [OnDisconnect]\<rparr>
         in if mountedRef s1 \<and> reconnectAttemptsRef s1 < maxReconnectAttempts opts then
              (log ''Will reconnect'' s1)
                \<lparr>reconnectAttemptsRef := reconnectAttemptsRef s1 + 1,
                 timers := timers s1 @ [True],
                 reconnectTimeoutRef := Some (length (timers s1))\<rparr>
            else s1))"

text \<open>The function given to \<open>setTimeout\<close> by \<open>ws.onclose\<close>.\<close>

definition retry :: "options \<Rightarrow> hook \<Rightarrow> hook" where
  "retry opts s = (if mountedRef s then connect opts s else s)"

text \<open>\<open>clearTimeout\<close> and \<open>WebSocket.close()\<close> as the browser carries them out.\<close>

definition clearTimeout :: "nat \<Rightarrow> hook \<Rightarrow> hook" where
  "clearTimeout t s = s\<lparr>timers := (timers s)[t := False]\<rparr>"

fun closing :: "ReadyState \<Rightarrow> ReadyState" where
  "closing CONNECTING = CLOSING"
| "closing OPEN = CLOSING"
| "closing CLOSING = CLOSING"
| "closing CLOSED = CLOSED"

definition ws_close :: "nat \<Rightarrow> hook \<Rightarrow> hook" where
  "ws_close i s = s\<lparr>sockets := (sockets s)[i := closing (sockets s ! i)]\<rparr>"

definition disconnect :: "options \<Rightarrow> hook \<Rightarrow> hook" where
  "disconnect opts s =
     (let s1 = (case reconnectTimeoutRef s of
                  Some t \<Rightarrow> (clearTimeout t s)\<lparr>reconnectTimeoutRef := None\<rparr>
                | None \<Rightarrow> s);
          s2 = s1\<lparr>reconnectAttemptsRef := maxReconnectAttempts opts\<rparr>;
          s3 = (case wsRef s2 of
                  Some i \<Rightarrow> (ws_close i s2)\<lparr>wsRef := None\<rparr>
                | None \<Rightarrow> s2)
      in s3\<lparr>isConnected := False, isConnecting := False\<rparr>)"

text \<open>The effect that runs on mount, and its cleanup.\<close>

definition mount :: "options \<Rightarrow> hook \<Rightarrow> hook" where
  "mount opts s = connect opts (s\<lparr>mountedRef := True\<rparr>)"

definition unmount :: "hook \<Rightarrow> hook" where
  "unmount s =
     (let s1 = s\<lparr>mountedRef := False\<rparr>;
          s2 = (case reconnectTimeoutRef s1 of Some t \<Rightarrow> clearTimeout t s1 | None \<Rightarrow> s1)
      in case wsRef s2 of
           Some i \<Rightarrow> (ws_close i s2)\<lparr>wsRef := None\<rparr>
         | None \<Rightarrow> s2)"

subsection \<open>What can happen to the hook\<close>

text \<open>
  The caller calls \<open>connect()\<close> or \<open>disconnect()\<close>, the component mounts or unmounts, and
  the browser delivers events: socket \<open>i\<close> opens (it was connecting), closes (it was not
  yet closed; a failed attempt closes too), receives a frame while open, or the pending
  timer \<open>t\<close> fires. An event that cannot happen in a state leaves it as it is.
\<close>

datatype event =
  CallConnect | CallDisconnect | Mount | Unmount
  | Opened nat | Closed nat | Received nat string | TimerFired nat

definition step :: "(string \<Rightarrow> WebSocketMessage option) \<Rightarrow> options \<Rightarrow> event \<Rightarrow> hook \<Rightarrow> hook" where
  "step JSON_parse opts e s =
     (case e of
        CallConnect \<Rightarrow> connect opts s
      | CallDisconnect \<Rightarrow> disconnect opts s
      | Mount \<Rightarrow> mount opts s
      | Unmount \<Rightarrow> unmount s
      | Opened i \<Rightarrow>
          if i < length (sockets s) \<and> sockets s ! i = CONNECTING
          then ws_onopen (s\<lparr>sockets := (sockets s)[i := OPEN]\<rparr>) else s
      | Closed i \<Rightarrow>
          if i < length (sockets s) \<and> sockets s ! i \<noteq> CLOSED
          then ws_onclose opts (s\<lparr>sockets := (sockets s)[i := CLOSED]\<rparr>) else s
      | Received i data \<Rightarrow>
          if i < length (sockets s) \<and> sockets s ! i = OPEN
          then ws_onmessage JSON_parse s data else s
      | TimerFired t \<Rightarrow>
          if t < length (timers s) \<and> timers s ! t
          then retry opts (s\<lparr>timers := (timers s)[t := False]\<rparr>) else s)"

fun run :: "(string \<Rightarrow> WebSocketMessage option) \<Rightarrow> options \<Rightarrow> event list \<Rightarrow> hook \<Rightarrow> hook" where
  "run JSON_parse opts [] s = s"
| "run JSON_parse opts (e # es) s = run JSON_parse opts es (step JSON_parse opts e s)"

text \<open>Sockets that are connecting or open, and whether the manager holds one of them.\<close>

definition outstanding :: "hook \<Rightarrow> nat" where
  "outstanding s = length (filter (\<lambda>r. r = CONNECTING \<or> r = OPEN) (sockets s))"

definition connecting_or_connected :: "hook \<Rightarrow> bool" where
  "connecting_or_connected s = (ref_readyState s = Some CONNECTING \<or> ref_readyState s = Some OPEN)"

fun is_open_event :: "event \<Rightarrow> bool" where
  "is_open_event (Opened i) = True"
| "is_open_event e = False"

definition five_retries :: options where
  "five_retries = \<lparr>maxReconnectAttempts = 5, url_ok = True\<rparr>"

definition no_parse :: "string \<Rightarrow> WebSocketMessage option" where
  "no_parse data = None"

text \<open>
  The effect runs, is cleaned up and runs again (as when React mounts a component twice,
  or an option of the hook changes); then the close event of the first socket arrives and
  the retry it schedules fires.
\<close>

definition remount_then_stale_close :: "event list" where
  "remount_then_stale_close = [Mount, Unmount, Mount, Closed 0, TimerFired 0]"

text \<open>
  The caller disconnects and connects again; the close event of the first socket arrives
  while the second is connecting; the caller calls \<open>connect()\<close> once more.
\<close>

definition reconnect_then_stale_close :: "event list" where
  "reconnect_then_stale_close = [Mount, Opened 0, CallDisconnect, CallConnect, Closed 0]"

definition two_retries :: options where
  "two_retries = \<lparr>maxReconnectAttempts = 2, url_ok = True\<rparr>"

text \<open>Three closures in a row, each retry firing in between, with no successful connect.\<close>

definition closures :: "event list" where
  "closures = [Mount, Closed 0, TimerFired 0, Closed 1, TimerFired 1, Closed 2, TimerFired 2]"

text \<open>
  The manager keeps track of what is live: a pending timer is the one held in
  \<open>reconnectTimeoutRef\<close>, and a socket that is still connecting is the one held in \<open>wsRef\<close>.
\<close>

definition tracked :: "hook \<Rightarrow> bool" where
  "tracked s =
     ((\<forall>t < length (timers s). timers s ! t \<longrightarrow> reconnectTimeoutRef s = Some t) \<and>
      (\<forall>i < length (sockets s). sockets s ! i = CONNECTING \<longrightarrow> wsRef s = Some i))"

text \<open>
  Nothing can revive the connection by itself: no timer is pending, no socket is still
  connecting, and the attempt counter is at the limit.
\<close>

definition silenced :: "options \<Rightarrow> hook \<Rightarrow> bool" where
  "silenced opts s =
     (True \<notin> set (timers s) \<and> CONNECTING \<notin> set (sockets s) \<and>
      reconnectAttemptsRef s = maxReconnectAttempts opts)"

fun is_connect_call :: "event \<Rightarrow> bool" where
  "is_connect_call CallConnect = True"
| "is_connect_call Mount = True"
| "is_connect_call e = False"

text \<open>A frame of an unknown type, as the client and as the server read it.\<close>

definition bogus_msg :: WebSocketMessage where
  "bogus_msg = \<lparr>ws_type = ''bogus'', ws_content = ''x''\<rparr>"

definition bogus_json :: json where
  "bogus_json = JObj [(''type'', JStr ''bogus''), (''content'', JStr ''x'')]"

text \<open>A decoder of the client and one of the server that know one well-formed text each.\<close>

definition parse_client :: "string \<Rightarrow> WebSocketMessage option" where
  "parse_client data = (if data = ''{\"type\":\"bogus\",\"content\":\"x\"}'' then Some bogus_msg else None)"

definition parse_server :: "string \<Rightarrow> json option" where
  "parse_server data = (if data = ''{\"type\":\"bogus\",\"content\":\"x\"}'' then Some bogus_json else None)"


section \<open>Properties of the server\<close>

subsection \<open>Sending on an open socket\<close>

lemma sendSafe_open: "readyState ws = 1 \<Longrightarrow> fst (sendSafe ws f) = ws\<lparr>sent := sent ws @ [f]\<rparr>"
  by (simp add: sendSafe_def)

lemma sendSafe_closed: "readyState ws \<noteq> 1 \<Longrightarrow> fst (sendSafe ws f) = ws"
  by (simp add: sendSafe_def)

lemma send_words_open:
  "readyState ws = 1 \<Longrightarrow>
   send_words ws words = ws\<lparr>sent := sent ws @ map (\<lambda>w. stream_frame (w @ '' '')) words\<rparr>"
  by (induction words arbitrary: ws) (simp_all add: sendSafe_open)

lemma split_space_not_Nil: "split_space s \<noteq> []"
  by (induction s) (auto split: list.splits)

lemma concat_split_space: "concat (map (\<lambda>w. w @ '' '') (split_space s)) = s @ '' ''"
  by (induction s) (auto split: list.splits simp: split_space_not_Nil)

lemma sendMockResponse_open:
  "readyState ws = 1 \<Longrightarrow>
   sendMockResponse ws (Some (JStr text)) = (ws\<lparr>sent := sent ws @ mock_frames text\<rparr>, Inr ())"
  by (simp add: sendMockResponse_def mock_frames_def sendSafe_open send_words_open Let_def)

lemma stream_chunks_open:
  "readyState ws = 1 \<Longrightarrow>
   stream_chunks ws full cs =
     (ws\<lparr>sent := sent ws @ map stream_frame (chunk_texts cs)\<rparr>,
      if Fails \<in> set cs then Inl UpstreamError else Inr (full @ concat (chunk_texts cs)))"
  by (induction ws full cs rule: stream_chunks.induct) (simp_all add: sendSafe_open)

lemma frame_type_simps [simp]:
  "frame_type thinking_frame = ''thinking''"
  "frame_type thinking_done_frame = ''thinking_done''"
  "frame_type (stream_frame t) = ''stream''"
  "frame_type (done_frame t) = ''done''"
  "frame_type error_frame = ''error''"
  "frame_type connected_frame = ''connected''"
  by (simp_all add: frame_type_def thinking_frame_def thinking_done_frame_def stream_frame_def
      done_frame_def error_frame_def connected_frame_def)

lemma content_text_simps [simp]:
  "content_text (stream_frame t) = t"
  "content_text (done_frame t) = t"
  by (simp_all add: content_text_def frame_content_def stream_frame_def done_frame_def)

lemma contents_of_append [simp]: "contents_of t (xs @ ys) = contents_of t xs @ contents_of t ys"
  by (simp add: contents_of_def)

lemma contents_of_Cons:
  "contents_of t (f # fs) =
     (if frame_type f = t then content_text f # contents_of t fs else contents_of t fs)"
  by (simp add: contents_of_def)

lemma contents_of_Nil [simp]: "contents_of t [] = []"
  by (simp add: contents_of_def)

lemma contents_of_stream_frames [simp]: "contents_of ''stream'' (map stream_frame ts) = ts"
  by (induction ts) (simp_all add: contents_of_Cons)

lemma contents_of_done_stream_frames [simp]: "contents_of ''done'' (map stream_frame ts) = []"
  by (induction ts) (simp_all add: contents_of_Cons)

lemma word_frames_map:
  "map (\<lambda>w. stream_frame (w @ '' '')) ws = map stream_frame (map (\<lambda>w. w @ '' '') ws)"
  by simp

lemma mock_frames_stream:
  "contents_of ''stream'' (mock_frames text) = map (\<lambda>w. w @ '' '') (split_space (mock_text text))"
  by (simp add: mock_frames_def contents_of_Cons word_frames_map del: map_map)

lemma mock_frames_done: "contents_of ''done'' (mock_frames text) = [mock_text text]"
  by (simp add: mock_frames_def contents_of_Cons word_frames_map del: map_map)

lemma mock_frames_types: "f \<in> set (mock_frames text) \<Longrightarrow> frame_type f \<in> turn_types"
  by (auto simp: mock_frames_def turn_types_def)

subsection \<open>The frames of a turn, path by path\<close>

lemma streamGeminiResponse_open:
  "readyState ws = 1 \<Longrightarrow>
   streamGeminiResponse m ws (Some (JStr text)) =
     (case m (Some (JStr text)) of
        Rejected \<Rightarrow> (ws\<lparr>sent := sent ws @ thinking_done_frame # mock_frames text\<rparr>, Inr ())
      | Stream cs \<Rightarrow>
          (ws\<lparr>sent := sent ws @ thinking_done_frame # map stream_frame (chunk_texts cs) @
             (if Fails \<in> set cs then mock_frames text else [done_frame (concat (chunk_texts cs))])\<rparr>,
           Inr ()))"
  by (simp add: streamGeminiResponse_def sendSafe_open sendMockResponse_open stream_chunks_open
      split: gen.splits)

lemma fallback_turn:
  assumes "readyState ws = 1" "\<not> (useAI g \<and> model g \<noteq> None)"
  shows "handleChatMessage g ws (Some (JStr text))
           = (ws\<lparr>sent := sent ws @ thinking_frame # mock_frames text\<rparr>, Inr ())"
  using assms
  by (auto simp: handleChatMessage_def sendSafe_open sendMockResponse_open Let_def
      split: bool.splits option.splits)

lemma upstream_turn:
  assumes "readyState ws = 1" "useAI g" "model g = Some m"
  shows "handleChatMessage g ws (Some (JStr text)) =
     (case m (Some (JStr text)) of
        Rejected \<Rightarrow>
          (ws\<lparr>sent := sent ws @ [thinking_frame, thinking_done_frame] @ mock_frames text\<rparr>, Inr ())
      | Stream cs \<Rightarrow>
          (ws\<lparr>sent := sent ws @ (thinking_frame # thinking_done_frame # map stream_frame (chunk_texts cs)) @
             (if Fails \<in> set cs then mock_frames text else [done_frame (concat (chunk_texts cs))])\<rparr>,
           Inr ()))"
  using assms
  by (simp add: handleChatMessage_def sendSafe_open streamGeminiResponse_open split: gen.splits)

text \<open>
  On the upstream path that runs to its end, the turn sends one \<open>done\<close> frame and its
  content is the concatenation of the streamed fragments.
\<close>

lemma upstream_turn_done_is_concat:
  assumes "readyState ws = 1" "useAI g" "model g = Some m" "m (Some (JStr text)) = Stream cs"
    "Fails \<notin> set cs"
  shows "\<exists>out. fst (handleChatMessage g ws (Some (JStr text))) = ws\<lparr>sent := sent ws @ out\<rparr>
     \<and> contents_of ''done'' out = [concat (contents_of ''stream'' out)]"
proof -
  let ?out = "(thinking_frame # thinking_done_frame # map stream_frame (chunk_texts cs))
               @ [done_frame (concat (chunk_texts cs))]"
  have "fst (handleChatMessage g ws (Some (JStr text))) = ws\<lparr>sent := sent ws @ ?out\<rparr>"
    using assms by (simp add: upstream_turn)
  moreover have "contents_of ''done'' ?out = [concat (contents_of ''stream'' ?out)]"
    by (simp add: contents_of_Cons)
  ultimately show ?thesis by blast
qed

text \<open>
  On the fallback path the turn also sends one \<open>done\<close> frame, but the streamed fragments
  spell the response followed by one more space.
\<close>

lemma fallback_turn_done_and_streamed:
  assumes "readyState ws = 1" "\<not> (useAI g \<and> model g \<noteq> None)"
  shows "\<exists>out. fst (handleChatMessage g ws (Some (JStr text))) = ws\<lparr>sent := sent ws @ out\<rparr>
     \<and> contents_of ''done'' out = [mock_text text]
     \<and> concat (contents_of ''stream'' out) = mock_text text @ '' ''"
proof -
  let ?out = "thinking_frame # mock_frames text"
  have "fst (handleChatMessage g ws (Some (JStr text))) = ws\<lparr>sent := sent ws @ ?out\<rparr>"
    using assms by (simp add: fallback_turn)
  moreover have "contents_of ''done'' ?out = [mock_text text]"
    by (simp add: contents_of_Cons mock_frames_done)
  moreover have "concat (contents_of ''stream'' ?out) = mock_text text @ '' ''"
    by (simp add: contents_of_Cons mock_frames_stream concat_split_space)
  ultimately show ?thesis by blast
qed

lemma handleChatMessage_open:
  assumes "readyState ws = 1"
  shows "\<exists>pre. handleChatMessage g ws (Some (JStr text)) = (ws\<lparr>sent := sent ws @ pre\<rparr>, Inr ())
           \<and> (\<forall>f \<in> set pre. frame_type f \<in> turn_types)
           \<and> (upstream_down g (Some (JStr text)) \<longrightarrow> (\<exists>p. pre = p @ mock_frames text))"
proof (cases "useAI g \<and> model g \<noteq> None")
  case False
  then have "handleChatMessage g ws (Some (JStr text))
      = (ws\<lparr>sent := sent ws @ thinking_frame # mock_frames text\<rparr>, Inr ())"
    using assms by (simp add: fallback_turn)
  moreover have "\<forall>f \<in> set (thinking_frame # mock_frames text). frame_type f \<in> turn_types"
    using mock_frames_types by (auto simp: turn_types_def)
  moreover have "thinking_frame # mock_frames text = [thinking_frame] @ mock_frames text" by simp
  ultimately show ?thesis by blast
next
  case True
  then obtain m where m: "useAI g" "model g = Some m" by auto
  show ?thesis
  proof (cases "m (Some (JStr text))")
    case Rejected
    have "handleChatMessage g ws (Some (JStr text))
      = (ws\<lparr>sent := sent ws @ [thinking_frame, thinking_done_frame] @ mock_frames text\<rparr>, Inr ())"
      using assms m Rejected by (simp add: upstream_turn)
    moreover have "\<forall>f \<in> set ([thinking_frame, thinking_done_frame] @ mock_frames text).
        frame_type f \<in> turn_types"
      using mock_frames_types by (auto simp: turn_types_def)
    ultimately show ?thesis by blast
  next
    case (Stream cs)
    let ?head = "thinking_frame # thinking_done_frame # map stream_frame (chunk_texts cs)"
    have head: "\<forall>f \<in> set ?head. frame_type f \<in> turn_types"
      by (auto simp: turn_types_def)
    show ?thesis
    proof (cases "Fails \<in> set cs")
      case True
      have "handleChatMessage g ws (Some (JStr text))
        = (ws\<lparr>sent := sent ws @ ?head @ mock_frames text\<rparr>, Inr ())"
        using assms m Stream True by (simp add: upstream_turn)
      moreover have "\<forall>f \<in> set (?head @ mock_frames text). frame_type f \<in> turn_types"
        using mock_frames_types head by auto
      ultimately show ?thesis by blast
    next
      case False
      have "handleChatMessage g ws (Some (JStr text))
        = (ws\<lparr>sent := sent ws @ ?head @ [done_frame (concat (chunk_texts cs))]\<rparr>, Inr ())"
        using assms m Stream False by (simp add: upstream_turn)
      moreover have "\<forall>f \<in> set (?head @ [done_frame (concat (chunk_texts cs))]).
          frame_type f \<in> turn_types"
        using head by (auto simp: turn_types_def)
      moreover have "\<not> upstream_down g (Some (JStr text))"
        using m Stream False by (simp add: upstream_down_def)
      ultimately show ?thesis by blast
    qed
  qed
qed

subsection \<open>The claims about the server\<close>

text \<open>
  Claim C1: on every successful turn the server sends exactly one \<open>done\<close> frame whose
  content is the concatenation of the contents of the \<open>stream\<close> frames of that turn.
  The upstream path does so (\<open>upstream_turn_done_is_concat\<close>). The fallback path does
  not: for the request \<open>hi\<close> without an upstream service, the one \<open>done\<close> frame carries
  the greeting, while the streamed fragments concatenate to the greeting followed by a
  space, because \<open>sendMockResponse\<close> appends a space to every word, the last one included.
\<close>

theorem fallback_done_differs_from_streamed:
  "contents_of ''done'' (sent (fst (handleChatMessage no_upstream open_socket (Some (JStr ''hi'')))))
     = [greeting]
   \<and> concat (contents_of ''stream''
        (sent (fst (handleChatMessage no_upstream open_socket (Some (JStr ''hi''))))))
     = greeting @ '' ''
   \<and> greeting @ '' '' \<noteq> greeting"
proof -
  have g: "mock_text ''hi'' = greeting"
    by (simp add: mock_text_def toLowerCase_def lower_char_def)
  have "fst (handleChatMessage no_upstream open_socket (Some (JStr ''hi'')))
      = open_socket\<lparr>sent := sent open_socket @ thinking_frame # mock_frames ''hi''\<rparr>"
    by (simp add: fallback_turn open_socket_def no_upstream_def)
  then show ?thesis
    by (simp add: contents_of_Cons mock_frames_stream mock_frames_done g concat_split_space
        open_socket_def)
qed

text \<open>
  Claim C3: in every turn \<open>thinking_done\<close> is sent exactly once and before the first
  \<open>stream\<close> frame, also when the upstream call fails partway. The code sends it at the
  start of \<open>streamGeminiResponse\<close> and again at the start of \<open>sendMockResponse\<close>: with an
  upstream that yields one chunk and then fails, the turn starts with \<open>thinking\<close>,
  \<open>thinking_done\<close>, \<open>stream\<close>, \<open>thinking_done\<close>, \<open>stream\<close> and holds two
  \<open>thinking_done\<close> frames.
\<close>

theorem thinking_done_twice_on_failing_upstream:
  "map frame_type
     (take 5 (sent (fst (handleChatMessage failing_upstream open_socket (Some (JStr ''thank''))))))
     = [''thinking'', ''thinking_done'', ''stream'', ''thinking_done'', ''stream'']
   \<and> length (filter (\<lambda>f. frame_type f = ''thinking_done'')
        (sent (fst (handleChatMessage failing_upstream open_socket (Some (JStr ''thank'')))))) = 2"
proof -
  have "fst (handleChatMessage failing_upstream open_socket (Some (JStr ''thank'')))
      = open_socket\<lparr>sent := sent open_socket @ thinking_frame # thinking_done_frame #
            map stream_frame (chunk_texts [Text ''Hi'', Fails]) @ mock_frames ''thank''\<rparr>"
    by (simp add: upstream_turn failing_upstream_def open_socket_def)
  then show ?thesis
    by (simp add: open_socket_def mock_frames_def mock_text_def toLowerCase_def lower_char_def)
qed

text \<open>
  Claim C4: every frame the server sends has a \<open>content\<close> field, the \<open>thinking_done\<close>
  frames of both paths included. In the code the second frame of a turn, on the fallback
  path and on the upstream path alike, is the object \<open>{ type: 'thinking_done' }\<close>, which
  has no \<open>content\<close> property.
\<close>

theorem thinking_done_frame_lacks_content:
  "sent (fst (handleChatMessage no_upstream open_socket (Some (JStr ''hi'')))) ! 1
     = JObj [(''type'', JStr ''thinking_done'')]
   \<and> sent (fst (handleChatMessage failing_upstream open_socket (Some (JStr ''hi'')))) ! 1
     = JObj [(''type'', JStr ''thinking_done'')]
   \<and> \<not> has_content (JObj [(''type'', JStr ''thinking_done'')])"
proof -
  have a: "fst (handleChatMessage no_upstream open_socket (Some (JStr ''hi'')))
      = open_socket\<lparr>sent := sent open_socket @ thinking_frame # mock_frames ''hi''\<rparr>"
    by (simp add: fallback_turn open_socket_def no_upstream_def)
  have b: "fst (handleChatMessage failing_upstream open_socket (Some (JStr ''hi'')))
      = open_socket\<lparr>sent := sent open_socket @ thinking_frame # thinking_done_frame #
            map stream_frame (chunk_texts [Text ''Hi'', Fails]) @ mock_frames ''hi''\<rparr>"
    by (simp add: upstream_turn failing_upstream_def open_socket_def)
  show ?thesis
    unfolding a b
    by (simp add: open_socket_def mock_frames_def thinking_done_frame_def has_content_def)
qed

subsection \<open>A request whose content is not a string\<close>

lemma mock_frames_fallback: "mock_frames text = fallback_frames (mock_text text)"
  by (simp add: mock_frames_def fallback_frames_def)

lemma fallback_frames_streams: "contents_of ''stream'' (fallback_frames r) \<noteq> []"
  using split_space_not_Nil [of r]
  by (cases "split_space r") (simp_all add: contents_of_def fallback_frames_def)

lemma fallback_frames_last: "last (p @ fallback_frames r) = done_frame r"
  by (simp add: fallback_frames_def)

lemma getMockResponse_not_string: "\<not> is_string c \<Longrightarrow> getMockResponse c = Inl TypeError"
  by (cases c rule: is_string.cases) simp_all

lemma sendMockResponse_not_string:
  "readyState ws = 1 \<Longrightarrow> \<not> is_string c \<Longrightarrow>
   sendMockResponse ws c = (ws\<lparr>sent := sent ws @ [thinking_done_frame]\<rparr>, Inl TypeError)"
  by (simp add: sendMockResponse_def getMockResponse_not_string sendSafe_open)

lemma handleChatMessage_not_string:
  assumes "readyState ws = 1" "\<not> is_string c" "upstream_down g c"
  shows "\<exists>pre. handleChatMessage g ws c
             = (ws\<lparr>sent := sent ws @ pre @ [thinking_done_frame]\<rparr>, Inl TypeError)
           \<and> ''done'' \<notin> set (map frame_type pre) \<and> ''error'' \<notin> set (map frame_type pre)"
proof (cases "useAI g \<and> model g \<noteq> None")
  case False
  then have "handleChatMessage g ws c
      = (ws\<lparr>sent := sent ws @ [thinking_frame] @ [thinking_done_frame]\<rparr>, Inl TypeError)"
    using assms(1,2)
    by (auto simp: handleChatMessage_def sendSafe_open sendMockResponse_not_string Let_def
        split: bool.splits option.splits)
  moreover have "''done'' \<notin> set (map frame_type [thinking_frame])
      \<and> ''error'' \<notin> set (map frame_type [thinking_frame])"
    by simp
  ultimately show ?thesis by blast
next
  case True
  then obtain m where m: "useAI g" "model g = Some m" by auto
  show ?thesis
  proof (cases "m c")
    case Rejected
    have "handleChatMessage g ws c
      = (ws\<lparr>sent := sent ws @ [thinking_frame, thinking_done_frame] @ [thinking_done_frame]\<rparr>,
         Inl TypeError)"
      using assms(1,2) m Rejected
      by (simp add: handleChatMessage_def streamGeminiResponse_def sendSafe_open
          sendMockResponse_not_string)
    moreover have "''done'' \<notin> set (map frame_type [thinking_frame, thinking_done_frame])
        \<and> ''error'' \<notin> set (map frame_type [thinking_frame, thinking_done_frame])"
      by simp
    ultimately show ?thesis by blast
  next
    case (Stream cs)
    let ?head = "thinking_frame # thinking_done_frame # map stream_frame (chunk_texts cs)"
    have fails: "Fails \<in> set cs"
      using assms(3) m Stream by (simp add: upstream_down_def)
    have "handleChatMessage g ws c
      = (ws\<lparr>sent := sent ws @ ?head @ [thinking_done_frame]\<rparr>, Inl TypeError)"
      using assms(1,2) m Stream fails
      by (simp add: handleChatMessage_def streamGeminiResponse_def sendSafe_open
          stream_chunks_open sendMockResponse_not_string)
    moreover have "''done'' \<notin> set (map frame_type ?head) \<and> ''error'' \<notin> set (map frame_type ?head)"
      by (auto simp: comp_def)
    ultimately show ?thesis by blast
  qed
qed

text \<open>
  Claim C8, as the code has it. For a chat request whose content is a string, on an open
  socket and whatever the upstream service does, the listener raises nothing and sends
  only \<open>thinking\<close>, \<open>thinking_done\<close>, \<open>stream\<close> and \<open>done\<close> frames, no \<open>error\<close> frame; and
  whenever the upstream service is unavailable or raises, the frames end with a complete
  fallback turn: \<open>thinking_done\<close>, at least one \<open>stream\<close> frame and, last, the \<open>done\<close>
  frame of the local response. For a chat request whose content is not a string the
  fallback generator itself raises: whenever the upstream service is unavailable or
  raises, the turn ends with \<open>thinking_done\<close> and the \<open>error\<close> frame, and no \<open>done\<close> frame
  is sent.
\<close>

theorem upstream_error_absorbed:
  assumes "readyState ws = 1"
  shows "(JSON_parse data = Some (JObj kvs) \<and> map_of kvs ''type'' = Some (JStr ''chat'')
          \<and> map_of kvs ''content'' = Some (JStr text) \<longrightarrow>
          (\<exists>pre. on_message_body JSON_parse g ws data = (ws\<lparr>sent := sent ws @ pre\<rparr>, Inr ())
             \<and> on_message JSON_parse g ws data = ws\<lparr>sent := sent ws @ pre\<rparr>
             \<and> ''error'' \<notin> set (map frame_type pre)
             \<and> set (map frame_type pre) \<subseteq> turn_types
             \<and> (upstream_down g (Some (JStr text)) \<longrightarrow>
                  (\<exists>p r. pre = p @ fallback_frames r
                     \<and> contents_of ''stream'' (fallback_frames r) \<noteq> []
                     \<and> last pre = done_frame r))))
     \<and> (JSON_parse' data' = Some (JObj kvs') \<and> map_of kvs' ''type'' = Some (JStr ''chat'')
          \<and> \<not> is_string (map_of kvs' ''content'') \<and> upstream_down g' (map_of kvs' ''content'') \<longrightarrow>
          (\<exists>pre. on_message JSON_parse' g' ws data'
                    = ws\<lparr>sent := sent ws @ pre @ [thinking_done_frame, error_frame]\<rparr>
             \<and> ''done'' \<notin> set (map frame_type pre) \<and> ''error'' \<notin> set (map frame_type pre)))"
proof -
  have a: "\<exists>pre. on_message_body JSON_parse g ws data = (ws\<lparr>sent := sent ws @ pre\<rparr>, Inr ())
             \<and> on_message JSON_parse g ws data = ws\<lparr>sent := sent ws @ pre\<rparr>
             \<and> ''error'' \<notin> set (map frame_type pre)
             \<and> set (map frame_type pre) \<subseteq> turn_types
             \<and> (upstream_down g (Some (JStr text)) \<longrightarrow>
                  (\<exists>p r. pre = p @ fallback_frames r
                     \<and> contents_of ''stream'' (fallback_frames r) \<noteq> []
                     \<and> last pre = done_frame r))"
    if h: "JSON_parse data = Some (JObj kvs)" "map_of kvs ''type'' = Some (JStr ''chat'')"
      "map_of kvs ''content'' = Some (JStr text)"
  proof -
    obtain pre where pre:
      "handleChatMessage g ws (Some (JStr text)) = (ws\<lparr>sent := sent ws @ pre\<rparr>, Inr ())"
      "\<forall>f \<in> set pre. frame_type f \<in> turn_types"
      "upstream_down g (Some (JStr text)) \<longrightarrow> (\<exists>p. pre = p @ mock_frames text)"
      using handleChatMessage_open [OF assms] by blast
    have body: "on_message_body JSON_parse g ws data = (ws\<lparr>sent := sent ws @ pre\<rparr>, Inr ())"
      using h pre(1) by (simp add: on_message_body_def)
    then have msg: "on_message JSON_parse g ws data = ws\<lparr>sent := sent ws @ pre\<rparr>"
      by (simp add: on_message_def)
    have types: "set (map frame_type pre) \<subseteq> turn_types"
      using pre(2) by auto
    then have noerr: "''error'' \<notin> set (map frame_type pre)"
      by (auto simp: turn_types_def)
    have fb: "\<exists>p r. pre = p @ fallback_frames r
                     \<and> contents_of ''stream'' (fallback_frames r) \<noteq> []
                     \<and> last pre = done_frame r"
      if up: "upstream_down g (Some (JStr text))"
    proof -
      obtain p where "pre = p @ fallback_frames (mock_text text)"
        using pre(3) up by (auto simp: mock_frames_fallback)
      then show ?thesis
        using fallback_frames_streams fallback_frames_last by blast
    qed
    show ?thesis
      using body msg types noerr fb by blast
  qed
  have b: "\<exists>pre. on_message JSON_parse' g' ws data'
                    = ws\<lparr>sent := sent ws @ pre @ [thinking_done_frame, error_frame]\<rparr>
             \<and> ''done'' \<notin> set (map frame_type pre) \<and> ''error'' \<notin> set (map frame_type pre)"
    if h: "JSON_parse' data' = Some (JObj kvs')" "map_of kvs' ''type'' = Some (JStr ''chat'')"
      "\<not> is_string (map_of kvs' ''content'')" "upstream_down g' (map_of kvs' ''content'')"
  proof -
    obtain pre where pre:
      "handleChatMessage g' ws (map_of kvs' ''content'')
         = (ws\<lparr>sent := sent ws @ pre @ [thinking_done_frame]\<rparr>, Inl TypeError)"
      "''done'' \<notin> set (map frame_type pre)" "''error'' \<notin> set (map frame_type pre)"
      using handleChatMessage_not_string [OF assms h(3) h(4)] by blast
    have "on_message JSON_parse' g' ws data'
        = ws\<lparr>sent := sent ws @ pre @ [thinking_done_frame, error_frame]\<rparr>"
      using h(1,2) pre(1) assms
      by (simp add: on_message_def on_message_body_def sendSafe_def)
    then show ?thesis using pre(2,3) by blast
  qed
  show ?thesis using a b by blast
qed

theorem upstream_error_absorbed_witness:
  "readyState open_socket = 1
   \<and> parse_chat ''{\"type\":\"chat\",\"content\":\"thank\"}'' = Some chat_thank
   \<and> upstream_down failing_upstream (Some (JStr ''thank''))
   \<and> ''error'' \<notin> set (map frame_type
         (sent (on_message parse_chat failing_upstream open_socket
                  ''{\"type\":\"chat\",\"content\":\"thank\"}'')))
   \<and> last (sent (on_message parse_chat failing_upstream open_socket
                  ''{\"type\":\"chat\",\"content\":\"thank\"}''))
       = done_frame ''You're welcome! Is there anything else I can help you with?''
   \<and> parse_chat ''{\"type\":\"chat\"}'' = Some chat_no_content
   \<and> \<not> is_string None
   \<and> upstream_down failing_upstream None
   \<and> last (sent (on_message parse_chat failing_upstream open_socket ''{\"type\":\"chat\"}''))
       = error_frame
   \<and> ''done'' \<notin> set (map frame_type
         (sent (on_message parse_chat failing_upstream open_socket ''{\"type\":\"chat\"}'')))"
proof -
  let ?dA = "''{\"type\":\"chat\",\"content\":\"thank\"}''"
  let ?kA = "[(''type'', JStr ''chat''), (''content'', JStr ''thank'')]"
  let ?dB = "''{\"type\":\"chat\"}''"
  let ?kB = "[(''type'', JStr ''chat'')]"
  have down: "upstream_down failing_upstream (Some (JStr ''thank''))"
    "upstream_down failing_upstream None"
    by (simp_all add: upstream_down_def failing_upstream_def)
  have p: "parse_chat ?dA = Some chat_thank" "parse_chat ?dB = Some chat_no_content"
    by (simp_all add: parse_chat_def)
  have op: "readyState open_socket = 1" "sent open_socket = []"
    by (simp_all add: open_socket_def)
  note both = upstream_error_absorbed [OF op(1), of parse_chat ?dA ?kA "''thank''" failing_upstream
        parse_chat ?dB ?kB failing_upstream]
  have hA: "parse_chat ?dA = Some (JObj ?kA) \<and> map_of ?kA ''type'' = Some (JStr ''chat'')
      \<and> map_of ?kA ''content'' = Some (JStr ''thank'')"
    by (simp add: parse_chat_def chat_thank_def)
  have hB: "parse_chat ?dB = Some (JObj ?kB) \<and> map_of ?kB ''type'' = Some (JStr ''chat'')
      \<and> \<not> is_string (map_of ?kB ''content'') \<and> upstream_down failing_upstream (map_of ?kB ''content'')"
    using down(2) by (simp add: parse_chat_def chat_no_content_def)
  from both [THEN conjunct1, THEN mp, OF hA] obtain pre where pre:
    "on_message parse_chat failing_upstream open_socket ?dA
       = open_socket\<lparr>sent := sent open_socket @ pre\<rparr>"
    "''error'' \<notin> set (map frame_type pre)"
    by blast
  have e: "''error'' \<notin> set (map frame_type
         (sent (on_message parse_chat failing_upstream open_socket ?dA)))"
    using pre by (simp add: op)
  from both [THEN conjunct2, THEN mp, OF hB] obtain pre' where pre':
    "on_message parse_chat failing_upstream open_socket ?dB
       = open_socket\<lparr>sent := sent open_socket @ pre' @ [thinking_done_frame, error_frame]\<rparr>"
    "''done'' \<notin> set (map frame_type pre')"
    by blast
  have l: "last (sent (on_message parse_chat failing_upstream open_socket ?dB)) = error_frame"
    and d: "''done'' \<notin> set (map frame_type
         (sent (on_message parse_chat failing_upstream open_socket ?dB)))"
    using pre' by (simp_all add: op)
  have reply: "last (sent (on_message parse_chat failing_upstream open_socket ?dA))
       = done_frame ''You're welcome! Is there anything else I can help you with?''"
    by (simp add: p chat_thank_def on_message_def on_message_body_def upstream_turn
        failing_upstream_def open_socket_def mock_frames_def mock_text_def toLowerCase_def
        lower_char_def)
  have n: "\<not> is_string None" by simp
  from op(1) p(1) down(1) e reply p(2) n down(2) l d show ?thesis by blast
qed

text \<open>
  Claim C8 as stated fails: a chat request without content, with no upstream service,
  is answered with \<open>thinking\<close>, \<open>thinking_done\<close> and the \<open>error\<close> frame; no \<open>stream\<close> and
  no \<open>done\<close> frame is sent.
\<close>

theorem request_without_content_ends_in_error:
  "sent (on_message parse_chat no_upstream open_socket ''{\"type\":\"chat\"}'')
     = [thinking_frame, thinking_done_frame, error_frame]
   \<and> frame_type error_frame = ''error''"
  by (simp add: parse_chat_def chat_no_content_def on_message_def on_message_body_def
      handleChatMessage_def sendMockResponse_def sendSafe_def no_upstream_def open_socket_def)

section \<open>Properties of the chat component\<close>

lemma render_ref [simp]: "currentAssistantIdRef (render st) = currentAssistantIdRef st"
  by (simp add: render_def)

lemma render_updaters [simp]: "updaters (render st) = []"
  by (simp add: render_def)

lemma render_render [simp]: "render (render st) = render st"
  by (simp add: render_def)

lemma render_setMessages:
  "messages (render (setMessages u st)) =
     run_updater (currentAssistantIdRef st) (messages (render st)) u"
  by (simp add: render_def setMessages_def)

lemma stop_streaming_None [simp]: "stop_streaming None msg = msg"
  by (simp add: stop_streaming_def)

lemma map_stop_streaming_None [simp]: "map (stop_streaming None) prev = prev"
  by (induction prev) simp_all

lemma chat_run_append: "chat_run (xs @ ys) st = chat_run ys (chat_run xs st)"
  by (induction xs arbitrary: st) auto

text \<open>
  The invariant of a turn is stated of the list React would render next: after the first
  fragment the message in progress is its last message, and every further fragment, and
  every render, keeps it so.
\<close>

lemma first_stream:
  "falsy (currentAssistantIdRef st) \<Longrightarrow>
   in_progress (''assistant-'' @ show_nat t0) f t0
     (render (handleWebSocketMessage t0 (stream_msg f) st))"
  by (simp add: handleWebSocketMessage_def stream_msg_def in_progress_def Let_def render_def
      setMessages_def)

lemma next_stream:
  assumes "in_progress aid acc t0 (render st)"
  shows "in_progress aid (acc @ f) t0 (render (handleWebSocketMessage t (stream_msg f) st))"
proof -
  have ref: "currentAssistantIdRef st = Some aid" "aid \<noteq> []"
    using assms by (simp_all add: in_progress_def)
  have "handleWebSocketMessage t (stream_msg f) st
      = setMessages (AppendFragment f) (st\<lparr>thinkingText := None\<rparr>)"
    using ref by (simp add: handleWebSocketMessage_def stream_msg_def falsy_def Let_def)
  moreover have "render (st\<lparr>thinkingText := None\<rparr>) = (render st)\<lparr>thinkingText := None\<rparr>"
    by (simp add: render_def)
  ultimately have "messages (render (handleWebSocketMessage t (stream_msg f) st))
      = map (append_fragment (Some aid) f) (messages (render st))"
    using ref by (simp add: render_setMessages)
  moreover have "currentAssistantIdRef (render (handleWebSocketMessage t (stream_msg f) st)) = Some aid"
    using ref by (simp add: handleWebSocketMessage_def stream_msg_def falsy_def Let_def setMessages_def)
  ultimately show ?thesis
    using assms by (simp add: in_progress_def last_map append_fragment_def or_empty_def)
qed

lemma more_streams:
  "in_progress aid acc t0 (render st) \<Longrightarrow>
   in_progress aid (acc @ joined mid) t0 (render (chat_run (map stream_tick mid) st))"
proof (induction mid arbitrary: acc st)
  case Nil
  then show ?case by (simp add: joined_def)
next
  case (Cons m mid)
  show ?case
  proof (cases m)
    case None
    have "in_progress aid acc t0 (render (render st))"
      using Cons.prems by simp
    from Cons.IH [OF this] show ?thesis
      by (simp add: None joined_def)
  next
    case (Some p)
    obtain t x where p: "p = (t, x)" by (cases p)
    from Cons.IH [OF next_stream [OF Cons.prems, of x t]]
    show ?thesis by (simp add: Some p joined_def)
  qed
qed

text \<open>
  The end of a turn: React has rendered, \<open>done\<close> is handled, React renders again. The
  updater queued by \<open>done\<close> is called after the handler has set the ref to \<open>null\<close>, so it
  finds no message to change.
\<close>

lemma done_after_render:
  assumes "in_progress aid acc t0 (render st)"
  shows "messages (chat_run [Render, Frame td (done_msg c), Render] st) = messages (render st)"
    and "updaters (chat_run [Render, Frame td (done_msg c), Render] st) = []"
    and "currentAssistantIdRef (chat_run [Render, Frame td (done_msg c), Render] st) = None"
proof -
  have ref: "currentAssistantIdRef (render st) = Some aid" "aid \<noteq> []"
    using assms by (simp_all add: in_progress_def)
  have h: "handleWebSocketMessage td (done_msg c) (render st)
      = (render st)\<lparr>updaters := [StopStreaming], currentAssistantIdRef := None,
                     thinkingText := None, isWaiting := False\<rparr>"
    using ref by (simp add: handleWebSocketMessage_def done_msg_def falsy_def setMessages_def)
  show "messages (chat_run [Render, Frame td (done_msg c), Render] st) = messages (render st)"
    and "updaters (chat_run [Render, Frame td (done_msg c), Render] st) = []"
    and "currentAssistantIdRef (chat_run [Render, Frame td (done_msg c), Render] st) = None"
    by (simp_all add: h) (simp add: render_def)
qed

lemma turn_last_message:
  assumes "falsy (currentAssistantIdRef st)"
  shows "messages (chat_run (Frame t0 (stream_msg f) # map stream_tick mid
                     @ [Render, Frame td (done_msg c), Render]) st) \<noteq> []"
    and "last (messages (chat_run (Frame t0 (stream_msg f) # map stream_tick mid
                     @ [Render, Frame td (done_msg c), Render]) st)) =
        \<lparr>msg_id = ''assistant-'' @ show_nat t0, msg_type = Assistant,
         content = f @ joined mid, timestamp = t0,
         isStreaming = Some True, displayContent = Some (f @ joined mid)\<rparr>"
    and "updaters (chat_run (Frame t0 (stream_msg f) # map stream_tick mid
                     @ [Render, Frame td (done_msg c), Render]) st) = []"
proof -
  let ?s1 = "handleWebSocketMessage t0 (stream_msg f) st"
  let ?s2 = "chat_run (map stream_tick mid) ?s1"
  have inv: "in_progress (''assistant-'' @ show_nat t0) (f @ joined mid) t0 (render ?s2)"
    using more_streams [OF first_stream [OF assms]] .
  have run: "chat_run (Frame t0 (stream_msg f) # map stream_tick mid
                     @ [Render, Frame td (done_msg c), Render]) st
      = chat_run [Render, Frame td (done_msg c), Render] ?s2"
    by (simp add: chat_run_append)
  show "messages (chat_run (Frame t0 (stream_msg f) # map stream_tick mid
                     @ [Render, Frame td (done_msg c), Render]) st) \<noteq> []"
    and "last (messages (chat_run (Frame t0 (stream_msg f) # map stream_tick mid
                     @ [Render, Frame td (done_msg c), Render]) st)) =
        \<lparr>msg_id = ''assistant-'' @ show_nat t0, msg_type = Assistant,
         content = f @ joined mid, timestamp = t0,
         isStreaming = Some True, displayContent = Some (f @ joined mid)\<rparr>"
    and "updaters (chat_run (Frame t0 (stream_msg f) # map stream_tick mid
                     @ [Render, Frame td (done_msg c), Render]) st) = []"
    unfolding run
    using done_after_render [OF inv, of td c] inv
    by (simp_all add: in_progress_def)
qed



lemmas chat_eval =
  handleWebSocketMessage_def stream_msg_def done_msg_def initial_chat_def falsy_def Let_def
  append_fragment_def stop_streaming_def or_empty_def render_def setMessages_def


text \<open>
  The message is not frozen. The \<open>done\<close> branch queues an updater that compares each id
  with \<open>currentAssistantIdRef.current\<close> and then sets that ref to \<open>null\<close>; when React
  calls the updater the ref is \<open>null\<close> and \<open>isStreaming\<close> stays true.
\<close>

lemma done_does_not_freeze:
  assumes "falsy (currentAssistantIdRef st)"
  shows "isStreaming (last (messages (chat_run (Frame t0 (stream_msg f) # map stream_tick mid
                     @ [Render, Frame td (done_msg c), Render]) st))) = Some True"
  using turn_last_message [OF assms, of t0 f mid td c] by simp

lemma hello_world_not_frozen:
  "isStreaming (last (messages (chat_run hello_world (initial_chat 0)))) = Some True"
proof -
  have one: "show_nat (Suc 0) = ''1''"
    by code_simp
  show ?thesis
    by (simp add: hello_world_def chat_eval one)
qed

text \<open>
  For the same reason a fragment is lost when \<open>done\<close> is handled before React has called
  the updater of that fragment.
\<close>

lemma batched_fragment_is_lost:
  "content (last (messages (chat_run hello_world_batched (initial_chat 0)))) = ''Hello''"
proof -
  have one: "show_nat (Suc 0) = ''1''"
    by code_simp
  show ?thesis
    by (simp add: hello_world_batched_def chat_eval one)
qed

text \<open>
  Claim C10: a \<open>done\<close> frame that arrives while no assistant message is in progress
  leaves the message list and the ref as they are; it only clears the thinking indicator
  and the waiting flag.
\<close>

theorem done_without_stream_keeps_messages:
  assumes "falsy (currentAssistantIdRef st)"
  shows "handleWebSocketMessage now (done_msg c) st = st\<lparr>thinkingText := None, isWaiting := False\<rparr>
     \<and> messages (handleWebSocketMessage now (done_msg c) st) = messages st
     \<and> currentAssistantIdRef (handleWebSocketMessage now (done_msg c) st) = currentAssistantIdRef st"
  using assms by (simp add: handleWebSocketMessage_def done_msg_def)

theorem done_without_stream_keeps_messages_witness:
  "falsy (currentAssistantIdRef ((initial_chat 0)\<lparr>isWaiting := True, thinkingText := Some ''Analyzing your question...''\<rparr>))
   \<and> handleWebSocketMessage 5 (done_msg ''x'')
        ((initial_chat 0)\<lparr>isWaiting := True, thinkingText := Some ''Analyzing your question...''\<rparr>)
     = initial_chat 0"
proof -
  let ?st = "(initial_chat 0)\<lparr>isWaiting := True, thinkingText := Some ''Analyzing your question...''\<rparr>"
  have f: "falsy (currentAssistantIdRef ?st)"
    by (simp add: falsy_def initial_chat_def)
  show ?thesis
    using done_without_stream_keeps_messages [OF f, of 5 "''x''"] f
    by (simp add: initial_chat_def)
qed

section \<open>Properties of the connection manager\<close>

lemma log_fields [simp]:
  "sockets (log l s) = sockets s" "wsRef (log l s) = wsRef s"
  "reconnectAttemptsRef (log l s) = reconnectAttemptsRef s"
  "reconnectTimeoutRef (log l s) = reconnectTimeoutRef s"
  "timers (log l s) = timers s" "mountedRef (log l s) = mountedRef s"
  "isConnected (log l s) = isConnected s" "isConnecting (log l s) = isConnecting s"
  "calls (log l s) = calls s"
  by (simp_all add: log_def)

lemma ref_readyState_log [simp]: "ref_readyState (log l s) = ref_readyState s"
  by (simp add: ref_readyState_def split: option.splits)

lemma log_console_only: "log l s = s\<lparr>console := console (log l s)\<rparr>"
  by (simp add: log_def)

lemma connect_guarded:
  "connecting_or_connected s \<Longrightarrow>
   connect opts s = log (if ref_readyState s = Some OPEN then ''Already connected'' else ''Already connecting'') s"
  by (auto simp: connect_def connecting_or_connected_def)

lemma connects_guarded:
  "connecting_or_connected s \<Longrightarrow>
   run P opts (replicate n CallConnect) s = s\<lparr>console := console (run P opts (replicate n CallConnect) s)\<rparr>"
proof (induction n arbitrary: s)
  case 0
  then show ?case by simp
next
  case (Suc n)
  let ?s1 = "connect opts s"
  have s1: "?s1 = s\<lparr>console := console ?s1\<rparr>"
    using connect_guarded [OF Suc.prems] by (simp add: log_def)
  have "connecting_or_connected ?s1"
    using Suc.prems connect_guarded [OF Suc.prems, of opts] by (simp add: connecting_or_connected_def)
  from Suc.IH [OF this]
  have "run P opts (replicate n CallConnect) ?s1
      = ?s1\<lparr>console := console (run P opts (replicate n CallConnect) ?s1)\<rparr>" .
  also have "\<dots> = s\<lparr>console := console (run P opts (replicate n CallConnect) ?s1)\<rparr>"
    by (subst s1) simp
  finally show ?case by (simp add: step_def)
qed

lemma connects_without_url:
  "\<not> url_ok opts \<Longrightarrow> sockets s = [] \<Longrightarrow>
   sockets (run P opts (replicate n CallConnect) s) = []"
proof (induction n arbitrary: s)
  case 0
  then show ?case by simp
next
  case (Suc n)
  have "sockets (connect opts s) = []"
    using Suc.prems by (simp add: connect_def Let_def)
  from Suc.IH [OF Suc.prems(1) this] show ?case by (simp add: step_def)
qed

text \<open>
  While the socket held in \<open>wsRef\<close> is connecting or open, any number of \<open>connect()\<close>
  calls changes nothing but the console: no socket is created, so the number of
  outstanding sockets stays as it was; and any number of \<open>connect()\<close> calls on a fresh
  manager leaves at most one socket outstanding.
\<close>

lemma guarded_connect_calls:
  "(connecting_or_connected s \<longrightarrow>
      run P opts (replicate n CallConnect) s
        = s\<lparr>console := console (run P opts (replicate n CallConnect) s)\<rparr>
      \<and> sockets (run P opts (replicate n CallConnect) s) = sockets s
      \<and> outstanding (run P opts (replicate n CallConnect) s) = outstanding s)
   \<and> outstanding (run P opts (replicate n CallConnect) initial_hook) \<le> 1"
proof -
  have a: "run P opts (replicate n CallConnect) s
        = s\<lparr>console := console (run P opts (replicate n CallConnect) s)\<rparr>"
    if "connecting_or_connected s" for s n
    using connects_guarded [OF that] .
  have b: "sockets (run P opts (replicate n CallConnect) s) = sockets s"
    if "connecting_or_connected s" for s n
    by (subst a [OF that]) simp
  have c: "outstanding (run P opts (replicate n CallConnect) initial_hook) \<le> 1"
  proof (cases n)
    case 0
    then show ?thesis by (simp add: outstanding_def initial_hook_def)
  next
    case (Suc k)
    show ?thesis
    proof (cases "url_ok opts")
      case True
      let ?s1 = "connect opts initial_hook"
      have g: "connecting_or_connected ?s1" and s: "sockets ?s1 = [CONNECTING]"
        using True
        by (simp_all add: connect_def initial_hook_def ref_readyState_def connecting_or_connected_def Let_def)
      have "sockets (run P opts (replicate k CallConnect) ?s1) = [CONNECTING]"
        using b [OF g] s by simp
      then show ?thesis by (simp add: Suc step_def outstanding_def)
    next
      case False
      have "sockets (run P opts (replicate n CallConnect) initial_hook) = []"
        by (rule connects_without_url [OF False]) (simp add: initial_hook_def)
      then show ?thesis by (simp add: outstanding_def)
    qed
  qed
  show ?thesis using a b c by (simp add: outstanding_def)
qed

lemma guarded_connect_calls_example:
  "connecting_or_connected (run no_parse five_retries [Mount] initial_hook)
   \<and> sockets (run no_parse five_retries (replicate 3 CallConnect) (run no_parse five_retries [Mount] initial_hook))
       = [CONNECTING]
   \<and> outstanding (run no_parse five_retries (replicate 3 CallConnect) initial_hook) \<le> 1"
proof -
  let ?s = "run no_parse five_retries [Mount] initial_hook"
  have s: "sockets ?s = [CONNECTING]" and g: "connecting_or_connected ?s"
    by (simp_all add: step_def mount_def connect_def initial_hook_def five_retries_def
        ref_readyState_def connecting_or_connected_def Let_def)
  show ?thesis
    using guarded_connect_calls [of ?s no_parse five_retries 3] s g by simp
qed


lemma connect_attempts [simp]: "reconnectAttemptsRef (connect opts s) = reconnectAttemptsRef s"
  by (simp add: connect_def Let_def)

lemma connect_timers [simp]: "timers (connect opts s) = timers s"
  by (simp add: connect_def Let_def)

lemma disconnect_attempts [simp]: "reconnectAttemptsRef (disconnect opts s) = maxReconnectAttempts opts"
  by (simp add: disconnect_def Let_def ws_close_def clearTimeout_def split: option.splits)

lemma disconnect_timers [simp]: "length (timers (disconnect opts s)) = length (timers s)"
  by (simp add: disconnect_def Let_def ws_close_def clearTimeout_def split: option.splits)

lemma unmount_attempts [simp]: "reconnectAttemptsRef (unmount s) = reconnectAttemptsRef s"
  by (simp add: unmount_def Let_def ws_close_def clearTimeout_def split: option.splits)

lemma unmount_timers [simp]: "length (timers (unmount s)) = length (timers s)"
  by (simp add: unmount_def Let_def ws_close_def clearTimeout_def split: option.splits)

lemma onmessage_attempts [simp]: "reconnectAttemptsRef (ws_onmessage P s d) = reconnectAttemptsRef s"
  by (simp add: ws_onmessage_def split: option.splits)

lemma onmessage_timers [simp]: "timers (ws_onmessage P s d) = timers s"
  by (simp add: ws_onmessage_def split: option.splits)

lemma onopen_timers [simp]: "timers (ws_onopen s) = timers s"
  by (simp add: ws_onopen_def)

lemma onopen_attempts: "reconnectAttemptsRef (ws_onopen s) = (if mountedRef s then 0 else reconnectAttemptsRef s)"
  by (simp add: ws_onopen_def)

lemma onclose_attempts:
  "reconnectAttemptsRef (ws_onclose opts s) =
     (if mountedRef s \<and> reconnectAttemptsRef s < maxReconnectAttempts opts
      then reconnectAttemptsRef s + 1 else reconnectAttemptsRef s)"
  by (simp add: ws_onclose_def Let_def)

lemma onclose_timers:
  "timers (ws_onclose opts s) =
     (if mountedRef s \<and> reconnectAttemptsRef s < maxReconnectAttempts opts
      then timers s @ [True] else timers s)"
  by (simp add: ws_onclose_def Let_def)

lemma step_attempts_le:
  "reconnectAttemptsRef s \<le> maxReconnectAttempts opts \<Longrightarrow>
   reconnectAttemptsRef (step P opts e s) \<le> maxReconnectAttempts opts"
  by (cases e) (simp_all add: step_def mount_def retry_def onopen_attempts onclose_attempts)

lemma run_attempts_le:
  "reconnectAttemptsRef s \<le> maxReconnectAttempts opts \<Longrightarrow>
   reconnectAttemptsRef (run P opts es s) \<le> maxReconnectAttempts opts"
  by (induction es arbitrary: s) (simp_all add: step_attempts_le)

lemma step_retries:
  "reconnectAttemptsRef s \<le> maxReconnectAttempts opts \<Longrightarrow> \<not> is_open_event e \<Longrightarrow>
   length (timers (step P opts e s)) + reconnectAttemptsRef s
     \<le> length (timers s) + reconnectAttemptsRef (step P opts e s)"
  by (cases e) (simp_all add: step_def mount_def retry_def onclose_attempts onclose_timers)

lemma run_retries:
  "reconnectAttemptsRef s \<le> maxReconnectAttempts opts \<Longrightarrow> \<forall>e \<in> set es. \<not> is_open_event e \<Longrightarrow>
   length (timers (run P opts es s)) + reconnectAttemptsRef s
     \<le> length (timers s) + reconnectAttemptsRef (run P opts es s)"
proof (induction es arbitrary: s)
  case Nil
  then show ?case by simp
next
  case (Cons e es)
  let ?s1 = "step P opts e s"
  have le: "reconnectAttemptsRef ?s1 \<le> maxReconnectAttempts opts"
    using Cons.prems(1) by (rule step_attempts_le)
  have one: "length (timers ?s1) + reconnectAttemptsRef s \<le> length (timers s) + reconnectAttemptsRef ?s1"
    using Cons.prems by (simp add: step_retries)
  have rest: "length (timers (run P opts es ?s1)) + reconnectAttemptsRef ?s1
     \<le> length (timers ?s1) + reconnectAttemptsRef (run P opts es ?s1)"
    using Cons.IH [OF le] Cons.prems(2) by simp
  from one rest show ?case by simp
qed

text \<open>
  Claim C6: with \<open>maxReconnectAttempts = N\<close>, the attempt counter stays at most \<open>N\<close>
  whatever happens; over any events without a successful connect (no socket opens) the
  retries scheduled number at most \<open>N\<close> less the counter at the start; \<open>ws.onclose\<close>
  increments the counter by one exactly when it schedules a retry, and schedules none once
  the counter is \<open>N\<close>; \<open>ws.onopen\<close> resets the counter to 0.
\<close>

theorem reconnect_attempts_bounded:
  assumes "reconnectAttemptsRef s \<le> maxReconnectAttempts opts"
  shows "reconnectAttemptsRef (run P opts es s) \<le> maxReconnectAttempts opts
    \<and> ((\<forall>e \<in> set es. \<not> is_open_event e) \<longrightarrow>
          length (timers (run P opts es s)) + reconnectAttemptsRef s
            \<le> length (timers s) + maxReconnectAttempts opts)
    \<and> length (timers (ws_onclose opts s)) + reconnectAttemptsRef s
          = length (timers s) + reconnectAttemptsRef (ws_onclose opts s)
    \<and> reconnectAttemptsRef s \<le> reconnectAttemptsRef (ws_onclose opts s)
    \<and> reconnectAttemptsRef (ws_onclose opts s) \<le> reconnectAttemptsRef s + 1
    \<and> (reconnectAttemptsRef s = maxReconnectAttempts opts \<longrightarrow> timers (ws_onclose opts s) = timers s)
    \<and> (mountedRef s \<longrightarrow> reconnectAttemptsRef (ws_onopen s) = 0)"
proof -
  have a: "reconnectAttemptsRef (run P opts es s) \<le> maxReconnectAttempts opts"
    using assms by (rule run_attempts_le)
  have b: "length (timers (run P opts es s)) + reconnectAttemptsRef s
            \<le> length (timers s) + maxReconnectAttempts opts"
    if "\<forall>e \<in> set es. \<not> is_open_event e"
    using run_retries [OF assms that, of P] a by linarith
  show ?thesis
    using a b by (simp add: onclose_attempts onclose_timers onopen_attempts)
qed

lemmas hook_eval =
  step_def mount_def unmount_def connect_def disconnect_def ws_onopen_def ws_onclose_def
  ws_onmessage_def retry_def clearTimeout_def ws_close_def ref_readyState_def log_def Let_def
  initial_hook_def

theorem reconnect_attempts_bounded_witness:
  "reconnectAttemptsRef initial_hook \<le> maxReconnectAttempts two_retries
   \<and> filter is_open_event closures = []
   \<and> timers (run no_parse two_retries closures initial_hook) = [False, False]
   \<and> sockets (run no_parse two_retries closures initial_hook) = [CLOSED, CLOSED, CLOSED]
   \<and> reconnectAttemptsRef (run no_parse two_retries closures initial_hook) = 2
   \<and> length (timers (run no_parse two_retries closures initial_hook)) \<le> 2"
proof -
  have h: "reconnectAttemptsRef initial_hook \<le> maxReconnectAttempts two_retries"
    by (simp add: initial_hook_def)
  have e: "\<forall>e \<in> set closures. \<not> is_open_event e"
    by (simp add: closures_def)
  have r: "timers (run no_parse two_retries closures initial_hook) = [False, False]"
    "sockets (run no_parse two_retries closures initial_hook) = [CLOSED, CLOSED, CLOSED]"
    "reconnectAttemptsRef (run no_parse two_retries closures initial_hook) = 2"
    by (simp_all add: closures_def two_retries_def hook_eval)
  show ?thesis
    using reconnect_attempts_bounded [OF h, of no_parse closures] h e r
    by (simp add: initial_hook_def two_retries_def closures_def)
qed

text \<open>
  Claim C7: \<open>connect()\<close> is idempotent, and at most one socket attempt is outstanding
  at a time. \<open>ws.onclose\<close> sets \<open>wsRef\<close> to \<open>null\<close> whichever socket has closed. When the
  socket that closes is one the manager no longer holds, the ref of the socket it does
  hold is lost: the next \<open>connect()\<close>, from the retry timer or from the caller, finds
  \<open>wsRef\<close> empty and opens another socket while the earlier one is still connecting.
  After a remount and the stale close event two sockets are connecting, the manager is
  connecting, and further \<open>connect()\<close> calls are no-ops that leave both outstanding;
  after a disconnect and reconnect, a \<open>connect()\<close> call made while the attempt is in
  flight opens a second socket.
\<close>

theorem stale_close_opens_second_socket:
  "sockets (run no_parse five_retries remount_then_stale_close initial_hook)
     = [CLOSED, CONNECTING, CONNECTING]
   \<and> connecting_or_connected (run no_parse five_retries remount_then_stale_close initial_hook)
   \<and> outstanding (run no_parse five_retries [CallConnect, CallConnect, CallConnect]
         (run no_parse five_retries remount_then_stale_close initial_hook)) = 2
   \<and> sockets (run no_parse five_retries reconnect_then_stale_close initial_hook)
     = [CLOSED, CONNECTING]
   \<and> sockets (run no_parse five_retries (reconnect_then_stale_close @ [CallConnect]) initial_hook)
     = [CLOSED, CONNECTING, CONNECTING]"
  by (simp add: remount_then_stale_close_def reconnect_then_stale_close_def five_retries_def
      outstanding_def connecting_or_connected_def hook_eval)

text \<open>
  Claim C5: after \<open>disconnect()\<close> no scheduled reconnect fires, even if a retry timer was
  pending at the call. \<open>disconnect()\<close> clears the timer held in \<open>reconnectTimeoutRef\<close>,
  but \<open>ws.onclose\<close> overwrites that ref without clearing the timer it held. After a
  closure (timer 0), a \<open>connect()\<close> by the caller and a second closure (timer 1),
  \<open>disconnect()\<close> clears timer 1 only; timer 0 is still pending, fires and opens a new
  socket.
\<close>

theorem lost_timer_fires_after_disconnect:
  "timers (run no_parse five_retries
      [Mount, Opened 0, Closed 0, CallConnect, Closed 1, CallDisconnect] initial_hook) = [True, False]
   \<and> sockets (run no_parse five_retries
      [Mount, Opened 0, Closed 0, CallConnect, Closed 1, CallDisconnect] initial_hook) = [CLOSED, CLOSED]
   \<and> sockets (run no_parse five_retries
      [Mount, Opened 0, Closed 0, CallConnect, Closed 1, CallDisconnect, TimerFired 0] initial_hook)
      = [CLOSED, CLOSED, CONNECTING]"
  by (simp add: five_retries_def hook_eval)


subsection \<open>Disconnecting a manager that has kept track\<close>

lemma not_in_update:
  assumes "\<forall>j < length xs. xs ! j = a \<longrightarrow> j = t" "b \<noteq> a"
  shows "a \<notin> set (xs[t := b])"
proof
  assume "a \<in> set (xs[t := b])"
  then obtain j where j: "j < length xs" "xs[t := b] ! j = a"
    by (auto simp: in_set_conv_nth)
  show False
  proof (cases "j = t")
    case True
    with j assms(2) show False by simp
  next
    case False
    with j have "xs ! j = a" by simp
    with assms(1) j(1) False show False by blast
  qed
qed

lemma not_in_none:
  assumes "\<forall>j < length xs. xs ! j \<noteq> a"
  shows "a \<notin> set xs"
  using assms by (auto simp: in_set_conv_nth)

lemma not_in_update_other: "a \<notin> set xs \<Longrightarrow> b \<noteq> a \<Longrightarrow> a \<notin> set (xs[t := b])"
  by (metis in_set_conv_nth length_list_update nth_list_update_eq nth_list_update_neq nth_mem)

lemma closing_not_connecting: "closing r \<noteq> CONNECTING"
  by (cases r) simp_all

lemma disconnect_timers_eq:
  "timers (disconnect opts s) =
     (case reconnectTimeoutRef s of Some t \<Rightarrow> (timers s)[t := False] | None \<Rightarrow> timers s)"
  by (simp add: disconnect_def Let_def ws_close_def clearTimeout_def split: option.splits)

lemma disconnect_sockets_eq:
  "sockets (disconnect opts s) =
     (case wsRef s of Some i \<Rightarrow> (sockets s)[i := closing (sockets s ! i)] | None \<Rightarrow> sockets s)"
  by (simp add: disconnect_def Let_def ws_close_def clearTimeout_def split: option.splits)

lemma disconnect_silences:
  assumes "tracked s"
  shows "silenced opts (disconnect opts s)"
proof -
  have t: "True \<notin> set (timers (disconnect opts s))"
  proof (cases "reconnectTimeoutRef s")
    case None
    with assms have "\<forall>j < length (timers s). timers s ! j \<noteq> True"
      by (auto simp: tracked_def)
    then show ?thesis using None by (simp add: disconnect_timers_eq not_in_none)
  next
    case (Some t)
    with assms have "\<forall>j < length (timers s). timers s ! j = True \<longrightarrow> j = t"
      by (auto simp: tracked_def)
    then have "True \<notin> set ((timers s)[t := False])"
      by (rule not_in_update) simp
    then show ?thesis using Some by (simp add: disconnect_timers_eq)
  qed
  have c: "CONNECTING \<notin> set (sockets (disconnect opts s))"
  proof (cases "wsRef s")
    case None
    with assms have "\<forall>j < length (sockets s). sockets s ! j \<noteq> CONNECTING"
      by (auto simp: tracked_def)
    then show ?thesis using None by (simp add: disconnect_sockets_eq not_in_none)
  next
    case (Some i)
    with assms have "\<forall>j < length (sockets s). sockets s ! j = CONNECTING \<longrightarrow> j = i"
      by (auto simp: tracked_def)
    then have "CONNECTING \<notin> set ((sockets s)[i := closing (sockets s ! i)])"
      by (rule not_in_update) (rule closing_not_connecting)
    then show ?thesis using Some by (simp add: disconnect_sockets_eq)
  qed
  show ?thesis using t c by (simp add: silenced_def)
qed



lemma unmount_timers_eq:
  "timers (unmount s) =
     (case reconnectTimeoutRef s of Some t \<Rightarrow> (timers s)[t := False] | None \<Rightarrow> timers s)"
  by (simp add: unmount_def Let_def ws_close_def clearTimeout_def split: option.splits)

lemma unmount_sockets_eq:
  "sockets (unmount s) =
     (case wsRef s of Some i \<Rightarrow> (sockets s)[i := closing (sockets s ! i)] | None \<Rightarrow> sockets s)"
  by (simp add: unmount_def Let_def ws_close_def clearTimeout_def split: option.splits)

lemma onclose_sockets [simp]: "sockets (ws_onclose opts s) = sockets s"
  by (simp add: ws_onclose_def Let_def)

lemma onmessage_sockets [simp]: "sockets (ws_onmessage P s d) = sockets s"
  by (simp add: ws_onmessage_def split: option.splits)

lemma onopen_sockets [simp]: "sockets (ws_onopen s) = sockets s"
  by (simp add: ws_onopen_def)

lemma cleared_timers:
  "True \<notin> set ts \<Longrightarrow> True \<notin> set (case r of Some t \<Rightarrow> ts[t := False] | None \<Rightarrow> ts)"
  by (cases r) (simp_all add: not_in_update_other)

lemma closed_sockets:
  "CONNECTING \<notin> set rs \<Longrightarrow>
   CONNECTING \<notin> set (case r of Some i \<Rightarrow> rs[i := closing (rs ! i)] | None \<Rightarrow> rs)"
  by (cases r) (simp_all add: not_in_update_other closing_not_connecting)

lemma closed_sockets_length:
  "length (case r of Some i \<Rightarrow> rs[i := closing (rs ! i)] | None \<Rightarrow> rs) = length rs"
  by (cases r) simp_all

lemma silenced_disconnect:
  "silenced opts s \<Longrightarrow>
   silenced opts (disconnect opts s) \<and> length (sockets (disconnect opts s)) = length (sockets s)"
  by (simp add: silenced_def disconnect_timers_eq disconnect_sockets_eq cleared_timers
      closed_sockets closed_sockets_length)

lemma silenced_unmount:
  "silenced opts s \<Longrightarrow>
   silenced opts (unmount s) \<and> length (sockets (unmount s)) = length (sockets s)"
  by (simp add: silenced_def unmount_timers_eq unmount_sockets_eq cleared_timers
      closed_sockets closed_sockets_length)

lemma silenced_closed:
  "silenced opts s \<Longrightarrow>
   silenced opts (ws_onclose opts (s\<lparr>sockets := (sockets s)[i := CLOSED]\<rparr>))"
  by (simp add: silenced_def onclose_timers onclose_attempts not_in_update_other)

lemma silenced_received:
  "silenced opts s \<Longrightarrow> silenced opts (ws_onmessage P s d)"
  by (simp add: silenced_def)


lemma nth_in_set: "t < length xs \<Longrightarrow> xs ! t = a \<Longrightarrow> a \<in> set xs"
  by auto

lemma step_silenced:
  assumes "silenced opts s" "\<not> is_connect_call e"
  shows "silenced opts (step P opts e s) \<and> length (sockets (step P opts e s)) = length (sockets s)"
proof (cases e)
  case CallConnect
  with assms(2) show ?thesis by simp
next
  case Mount
  with assms(2) show ?thesis by simp
next
  case CallDisconnect
  then show ?thesis
    using silenced_disconnect [OF assms(1)] by (simp add: step_def)
next
  case Unmount
  then show ?thesis
    using silenced_unmount [OF assms(1)] by (simp add: step_def)
next
  case (Opened i)
  have "\<not> (i < length (sockets s) \<and> sockets s ! i = CONNECTING)"
  proof
    assume a: "i < length (sockets s) \<and> sockets s ! i = CONNECTING"
    then have "CONNECTING \<in> set (sockets s)"
      using nth_mem [of i "sockets s"] by auto
    with assms(1) show False by (simp add: silenced_def)
  qed
  then have "step P opts e s = s"
    using Opened by (auto simp: step_def)
  then show ?thesis using assms(1) by simp
next
  case (Closed i)
  then show ?thesis
    using silenced_closed [OF assms(1), of i] assms(1) by (simp add: step_def)
next
  case (Received i d)
  then show ?thesis
    using silenced_received [OF assms(1), of P d] assms(1) by (simp add: step_def)
next
  case (TimerFired t)
  have "\<not> (t < length (timers s) \<and> timers s ! t)"
  proof
    assume a: "t < length (timers s) \<and> timers s ! t"
    then have "t < length (timers s)" "timers s ! t = True" by simp_all
    then have "True \<in> set (timers s)" by (rule nth_in_set)
    with assms(1) show False by (simp add: silenced_def)
  qed
  then have "step P opts e s = s"
    using TimerFired by (auto simp: step_def)
  then show ?thesis using assms(1) by simp
qed

lemma run_silenced:
  "silenced opts s \<Longrightarrow> \<forall>e \<in> set es. \<not> is_connect_call e \<Longrightarrow>
   silenced opts (run P opts es s) \<and> length (sockets (run P opts es s)) = length (sockets s)"
proof (induction es arbitrary: s)
  case Nil
  then show ?case by simp
next
  case (Cons e es)
  have one: "silenced opts (step P opts e s)" "length (sockets (step P opts e s)) = length (sockets s)"
    using step_silenced [OF Cons.prems(1), of e P] Cons.prems(2) by simp_all
  from Cons.IH [OF one(1)] Cons.prems(2) one(2) show ?case by simp
qed

text \<open>
  When the manager has kept track of its timers and sockets, \<open>disconnect()\<close> does silence
  it: whatever happens afterwards, short of a new \<open>connect()\<close> or a mount, no socket is
  created and no timer is pending. A manager whose first socket has closed, with its
  retry pending, is in such a state.
\<close>

lemma disconnect_quiet_when_tracked:
  assumes "tracked s" "\<forall>e \<in> set es. \<not> is_connect_call e"
  shows "length (sockets (run P opts es (disconnect opts s))) = length (sockets s)
    \<and> True \<notin> set (timers (run P opts es (disconnect opts s)))"
proof -
  have "silenced opts (disconnect opts s)"
    using assms(1) by (rule disconnect_silences)
  from run_silenced [OF this assms(2), of P]
  show ?thesis
    by (simp add: silenced_def disconnect_sockets_eq closed_sockets_length)
qed

lemma tracked_after_first_closure:
  "tracked (run no_parse five_retries [Mount, Opened 0, Closed 0] initial_hook)"
  by (simp add: tracked_def five_retries_def hook_eval)


subsection \<open>Malformed frames\<close>

lemma unknown_type_ignored:
  "ws_type m \<notin> known_types \<Longrightarrow> handleWebSocketMessage now m st = st"
  by (simp add: handleWebSocketMessage_def known_types_def)

text \<open>
  Claim C9, as the code has it. On the client a frame that does not parse is not handed to
  the message handler: the hook only writes a line to the console, and its sockets, its
  connection state and its callback trace stay as they are. A frame that parses but has an
  unknown \<open>type\<close> is handed to the handler, which matches no case and leaves the chat
  state as it is. On the server a text that does not parse (or parses to \<open>null\<close>) is
  answered with the \<open>error\<close> frame and a message whose \<open>type\<close> is not \<open>chat\<close> with
  nothing; neither starts a chat turn, and the socket stays as it is.
\<close>

theorem malformed_frames:
  "(P bad = None \<longrightarrow>
      ws_onmessage P s bad = (if mountedRef s then log ''Failed to parse WebSocket message:'' s else s)
      \<and> calls (ws_onmessage P s bad) = calls s
      \<and> sockets (ws_onmessage P s bad) = sockets s
      \<and> isConnected (ws_onmessage P s bad) = isConnected s
      \<and> isConnecting (ws_onmessage P s bad) = isConnecting s)
   \<and> (P unk = Some m \<and> ws_type m \<notin> known_types \<longrightarrow>
      ws_onmessage P s unk = (if mountedRef s then s\<lparr>calls := calls s @ [OnMessage m]\<rparr> else s)
      \<and> handleWebSocketMessage now m st = st)
   \<and> (J bad' = None \<or> J bad' = Some JNull \<longrightarrow>
      on_message J g ws bad' = fst (sendSafe ws error_frame)
      \<and> readyState (on_message J g ws bad') = readyState ws)
   \<and> (J unk' = Some v \<and> get_prop v ''type'' = Inr t \<and> t \<noteq> Some (JStr ''chat'') \<longrightarrow>
      on_message J g ws unk' = ws)"
proof -
  have a: "ws_onmessage P s bad = (if mountedRef s then log ''Failed to parse WebSocket message:'' s else s)"
    if "P bad = None"
    using that by (simp add: ws_onmessage_def)
  have b: "ws_onmessage P s unk = (if mountedRef s then s\<lparr>calls := calls s @ [OnMessage m]\<rparr> else s)"
    if "P unk = Some m"
    using that by (simp add: ws_onmessage_def)
  have c: "on_message J g ws bad' = fst (sendSafe ws error_frame)"
    if "J bad' = None \<or> J bad' = Some JNull"
    using that by (auto simp: on_message_def on_message_body_def)
  have d: "readyState (fst (sendSafe ws error_frame)) = readyState ws"
    by (simp add: sendSafe_def)
  have e: "on_message J g ws unk' = ws"
    if "J unk' = Some v" "get_prop v ''type'' = Inr t" "t \<noteq> Some (JStr ''chat'')"
    using that by (simp add: on_message_def on_message_body_def)
  show ?thesis
    using a b c d e unknown_type_ignored [of m now st] by simp
qed

theorem malformed_frames_witness:
  "parse_client ''oops'' = None
   \<and> ws_onmessage parse_client initial_hook ''oops''
       = initial_hook\<lparr>console := [''Failed to parse WebSocket message:'']\<rparr>
   \<and> parse_client ''{\"type\":\"bogus\",\"content\":\"x\"}'' = Some bogus_msg
   \<and> ws_type bogus_msg \<notin> known_types
   \<and> ws_onmessage parse_client initial_hook ''{\"type\":\"bogus\",\"content\":\"x\"}''
       = initial_hook\<lparr>calls := [OnMessage bogus_msg]\<rparr>
   \<and> handleWebSocketMessage 7 bogus_msg (initial_chat 0) = initial_chat 0
   \<and> parse_server ''oops'' = None
   \<and> sent (on_message parse_server no_upstream open_socket ''oops'') = [error_frame]
   \<and> parse_server ''{\"type\":\"bogus\",\"content\":\"x\"}'' = Some bogus_json
   \<and> on_message parse_server no_upstream open_socket ''{\"type\":\"bogus\",\"content\":\"x\"}''
       = open_socket"
proof -
  have p: "parse_client ''oops'' = None"
    "parse_client ''{\"type\":\"bogus\",\"content\":\"x\"}'' = Some bogus_msg"
    "parse_server ''oops'' = None"
    "parse_server ''{\"type\":\"bogus\",\"content\":\"x\"}'' = Some bogus_json"
    by (simp_all add: parse_client_def parse_server_def)
  have k: "ws_type bogus_msg \<notin> known_types"
    by (simp add: bogus_msg_def known_types_def)
  have t: "get_prop bogus_json ''type'' = Inr (Some (JStr ''bogus''))"
    "Some (JStr ''bogus'') \<noteq> Some (JStr ''chat'')"
    by (simp_all add: bogus_json_def)
  show ?thesis
    using malformed_frames [of parse_client "''oops''" initial_hook
        "''{\"type\":\"bogus\",\"content\":\"x\"}''" bogus_msg 7 "initial_chat 0"
        parse_server "''oops''" no_upstream open_socket
        "''{\"type\":\"bogus\",\"content\":\"x\"}''" bogus_json "Some (JStr ''bogus'')"]
      p k t
    by (simp add: initial_hook_def log_def sendSafe_def open_socket_def)
qed


text \<open>
  Claim C9 as stated fails: a frame of unknown type received on an open socket is passed
  to the message handler.
\<close>

theorem unknown_type_reaches_handler:
  "calls (run parse_client five_retries
            [Mount, Opened 0, Received 0 ''{\"type\":\"bogus\",\"content\":\"x\"}''] initial_hook)
     = [OnConnect, OnMessage bogus_msg]"
  by (simp add: five_retries_def parse_client_def hook_eval)

end
